theory Spec2Isabelle
  imports Main "HOL-Library.Sublist"
begin

section \<open>Python values, exceptions and strings\<close>

text \<open>
  The module \<open>pyaudacity/__init__.py\<close> drives a running Audacity through two named
  pipes. Its core is the function \<open>do\<close>; every other function of the module formats a
  command string and hands it to \<open>do\<close>. This theory embeds \<open>do\<close> and the wrapper
  \<open>save\<close>, together with the part of the operating system they touch.

  Exceptions are values. \<open>PyAudacityException\<close> is declared in the module with an empty
  body, so an instance carries its message and nothing else. \<open>SystemExit\<close> is what the
  two \<open>sys.exit()\<close> statements of \<open>do\<close> would raise; both follow a \<open>raise\<close>
  directly.
\<close>

datatype py_exception = PyAudacityException string | SystemExit

text \<open>
  The arguments of \<open>save\<close> that the code inspects at run time (\<open>isinstance\<close>,
  truth value, \<open>str\<close>, \<open>type\<close>) are dynamically typed values.
\<close>

datatype pyval = PyBool bool | PyInt int | PyStr string | PyNone

fun isinstance_bool :: "pyval \<Rightarrow> bool" where
  "isinstance_bool (PyBool b) = True"
| "isinstance_bool v = False"

fun truthy :: "pyval \<Rightarrow> bool" where
  "truthy (PyBool b) = b"
| "truthy (PyInt i) = (i \<noteq> 0)"
| "truthy (PyStr s) = (s \<noteq> [])"
| "truthy PyNone = False"

fun str_type :: "pyval \<Rightarrow> string" where
  "str_type (PyBool b) = ''<class 'bool'>''"
| "str_type (PyInt i) = ''<class 'int'>''"
| "str_type (PyStr s) = ''<class 'str'>''"
| "str_type PyNone = ''<class 'NoneType'>''"

text \<open>\<open>str\<close> of a natural number (the result of \<open>os.getuid()\<close>): its decimal digits.\<close>

definition digit :: "nat \<Rightarrow> char" where
  "digit d = ''0123456789'' ! d"

fun str_nat :: "nat \<Rightarrow> string" where
  "str_nat n = (if n < 10 then [digit n] else str_nat (n div 10) @ [digit (n mod 10)])"

declare str_nat.simps [simp del]

fun str_int :: "int \<Rightarrow> string" where
  "str_int i = (if i < 0 then CHR ''-'' # str_nat (nat (- i)) else str_nat (nat i))"

text \<open>\<open>'{}'.format(v)\<close>, which is \<open>str(v)\<close> for these values.\<close>

fun format_val :: "pyval \<Rightarrow> string" where
  "format_val (PyBool b) = (if b then ''True'' else ''False'')"
| "format_val (PyInt i) = str_int i"
| "format_val (PyStr s) = s"
| "format_val PyNone = ''None''"

text \<open>
  \<open>sub in s\<close> on strings: \<open>sub\<close> occurs in \<open>s\<close> as a contiguous block.
\<close>

fun str_in :: "string \<Rightarrow> string \<Rightarrow> bool" where
  "str_in sub [] = (sub = [])"
| "str_in sub (c # s) = (prefix sub (c # s) \<or> str_in sub s)"

section \<open>The operating system as seen by the module\<close>

text \<open>
  A file object remembers the name and the mode it was opened with. The world holds
  \<open>sys.platform\<close>, \<open>os.getuid()\<close>, the set of paths that exist, the lines that successive
  \<open>readline()\<close> calls on the inbound pipe return (\<open>inbound w k\<close> is the result of call
  number \<open>k\<close>; the empty string is end of input, as in Python) with the number of calls
  made so far, the file objects that are open, and the log of the system calls made.

  Paths that exist can be opened and unlinked; failures of the operating system itself
  are outside the model.
\<close>

datatype mode = ReadMode | WriteMode

record py_file =
  file_name :: string
  file_mode :: mode

datatype event =
    Exists string
  | Sleep
  | Open string mode
  | Write string string
  | Flush string
  | Readline string
  | Close string
  | Unlink string

record world =
  platform :: string
  uid :: nat
  paths :: "string set"
  inbound :: "nat \<Rightarrow> string"
  rpos :: nat
  open_files :: "py_file list"
  trace :: "event list"

definition path_exists :: "string \<Rightarrow> world \<Rightarrow> bool \<times> world" where
  "path_exists p w = (p \<in> paths w, w\<lparr>trace := trace w @ [Exists p]\<rparr>)"

definition sleep :: "world \<Rightarrow> world" where
  "sleep w = w\<lparr>trace := trace w @ [Sleep]\<rparr>"

definition open_file :: "string \<Rightarrow> mode \<Rightarrow> world \<Rightarrow> py_file \<times> world" where
  "open_file p m w =
     (let f = \<lparr>file_name = p, file_mode = m\<rparr>
      in (f, w\<lparr>open_files := f # open_files w, trace := trace w @ [Open p m]\<rparr>))"

definition pipe_write :: "py_file \<Rightarrow> string \<Rightarrow> world \<Rightarrow> world" where
  "pipe_write f s w = w\<lparr>trace := trace w @ [Write (file_name f) s]\<rparr>"

definition flush :: "py_file \<Rightarrow> world \<Rightarrow> world" where
  "flush f w = w\<lparr>trace := trace w @ [Flush (file_name f)]\<rparr>"

definition readline :: "py_file \<Rightarrow> world \<Rightarrow> string \<times> world" where
  "readline f w =
     (inbound w (rpos w), w\<lparr>rpos := Suc (rpos w), trace := trace w @ [Readline (file_name f)]\<rparr>)"

definition close :: "py_file \<Rightarrow> world \<Rightarrow> world" where
  "close f w = w\<lparr>open_files := remove1 f (open_files w), trace := trace w @ [Close (file_name f)]\<rparr>"

definition unlink :: "string \<Rightarrow> world \<Rightarrow> world" where
  "unlink p w = w\<lparr>paths := paths w - {p}, trace := trace w @ [Unlink p]\<rparr>"

text \<open>
  \<open>_open(read_pipe_name)\<close> gives neither a mode nor a \<open>newline\<close> argument, so the
  read pipe is a text file with universal newlines: what the peer sends is decoded
  before \<open>readline\<close> sees it, a carriage return followed by a line feed and a lone
  carriage return each becoming one line feed. \<open>decode_newlines\<close> is that decoder, its
  flag saying that the character before was a carriage return; \<open>text_lines\<close> cuts the
  decoded text after every line feed, which gives the results of the successive
  \<open>readline\<close> calls. Strings are sequences of bytes here; character encodings are
  outside the model.
\<close>

fun decode_newlines :: "bool \<Rightarrow> string \<Rightarrow> string" where
  "decode_newlines pendingcr [] = []"
| "decode_newlines pendingcr (c # s) =
     (if c = CHR 0x0D then CHR ''\<newline>'' # decode_newlines True s
      else if c = CHR ''\<newline>'' \<and> pendingcr then decode_newlines False s
      else c # decode_newlines False s)"

definition universal_newlines :: "string \<Rightarrow> string" where
  "universal_newlines raw = decode_newlines False raw"

fun text_lines :: "string \<Rightarrow> string list" where
  "text_lines [] = []"
| "text_lines (c # s) =
     (if c = CHR ''\<newline>'' then [c] # text_lines s
      else (case text_lines s of [] \<Rightarrow> [[c]] | l # ls \<Rightarrow> (c # l) # ls))"

section \<open>The exchange: \<open>do\<close>\<close>

definition backslash :: char where
  "backslash = CHR 0x5C"

definition win_write_pipe_name :: string where
  "win_write_pipe_name = [backslash, backslash] @ ''.'' @ [backslash] @ ''pipe'' @ [backslash] @ ''ToSrvPipe''"

definition win_read_pipe_name :: string where
  "win_read_pipe_name = [backslash, backslash] @ ''.'' @ [backslash] @ ''pipe'' @ [backslash] @ ''FromSrvPipe''"

definition win_eol :: string where
  "win_eol = [CHR 0x0D, CHR 0x0A, CHR 0x00]"

definition write_pipe_name :: "world \<Rightarrow> string" where
  "write_pipe_name w =
     (if platform w = ''win32'' then win_write_pipe_name
      else ''/tmp/audacity_script_pipe.to.'' @ str_nat (uid w))"

definition read_pipe_name :: "world \<Rightarrow> string" where
  "read_pipe_name w =
     (if platform w = ''win32'' then win_read_pipe_name
      else ''/tmp/audacity_script_pipe.from.'' @ str_nat (uid w))"

definition eol :: "world \<Rightarrow> string" where
  "eol w = (if platform w = ''win32'' then win_eol else ''\<newline>'')"

definition does_not_exist :: string where
  "does_not_exist = '' does not exist.  Ensure Audacity is running and mod-script-pipe is set to Enabled in the Preferences window.''"

definition failure_marker :: string where
  "failure_marker = ''BatchCommand finished: Failed!''"

text \<open>
  The read loop \<open>while True: response += line; line = read_pipe.readline(); if line ==
  "\n" and len(response) > 0: break\<close>. It has no other exit, so it is a partial function:
  \<open>None\<close> is the run that never leaves the loop.
\<close>

partial_function (option) read_loop ::
  "py_file \<Rightarrow> string \<Rightarrow> string \<Rightarrow> world \<Rightarrow> (string \<times> world) option" where
  "read_loop read_pipe response line w =
     (let response' = response @ line;
          lw = readline read_pipe w
      in if fst lw = ''\<newline>'' \<and> length response' > 0 then Some (response', snd lw)
         else read_loop read_pipe response' (fst lw) (snd lw))"

definition do :: "string \<Rightarrow> world \<Rightarrow> ((py_exception + string) \<times> world) option" where
  "do command w0 =
     (let wname = write_pipe_name w0;
          rname = read_pipe_name w0;
          (ex, w) = path_exists wname w0
      in if \<not> ex then Some (Inl (PyAudacityException (wname @ does_not_exist)), w)
         else
           let w = sleep w;
               (ex, w) = path_exists rname w
           in if \<not> ex then Some (Inl (PyAudacityException (rname @ does_not_exist)), w)
              else
                let w = sleep w;
                    (write_pipe, w) = open_file wname WriteMode w;
                    (read_pipe, w) = open_file rname ReadMode w;
                    w = pipe_write write_pipe (command @ eol w0) w;
                    w = flush write_pipe w
                in case read_loop read_pipe [] [] w of
                     None \<Rightarrow> None
                   | Some (response, w) \<Rightarrow>
                       let w = close write_pipe w;
                           w = sleep w;
                           w = close read_pipe w
                       in if str_in failure_marker response
                          then Some (Inl (PyAudacityException response), w)
                          else Some (Inr response, w))"

section \<open>The wrapper \<open>save\<close>\<close>

definition save ::
  "string \<Rightarrow> pyval \<Rightarrow> pyval \<Rightarrow> pyval \<Rightarrow> world \<Rightarrow> ((py_exception + string) \<times> world) option" where
  \<open>save filename add_to_history compress allow_overwrite w0 =
     (let w = (if truthy allow_overwrite
               then (let (ex, w) = path_exists filename w0
                     in if ex then unlink filename w else w)
               else w0)
      in if \<not> isinstance_bool add_to_history
         then Some (Inl (PyAudacityException
                (''add_to_history argument must be a bool, not'' @ str_type add_to_history)), w)
         else if \<not> isinstance_bool compress
         then Some (Inl (PyAudacityException
                (''compress argument must be a bool, not'' @ str_type compress)), w)
         else do (''SaveProject2: Filename="'' @ filename @ ''" AddToHistory="''
                    @ format_val add_to_history @ ''" Compress="'' @ format_val compress @ ''"'') w)\<close>

text \<open>The call \<open>save(filename)\<close>, every keyword argument at its default.\<close>

definition save_defaults :: "string \<Rightarrow> world \<Rightarrow> ((py_exception + string) \<times> world) option" where
  "save_defaults filename w = save filename (PyBool False) (PyBool False) (PyBool True) w"

section \<open>Vocabulary of the statements\<close>

text \<open>
  \<open>buffered w k\<close> is what the loop has accumulated when it has read the lines before
  number \<open>k\<close>; \<open>stops_at w k\<close> says that line \<open>k\<close> is the first line that is a lone
  line feed read with a non-empty buffer.
\<close>

definition buffered :: "world \<Rightarrow> nat \<Rightarrow> string" where
  "buffered w k = concat (map (inbound w) [rpos w..<k])"

definition blank_after_content :: "world \<Rightarrow> nat \<Rightarrow> bool" where
  "blank_after_content w k = (inbound w k = ''\<newline>'' \<and> buffered w k \<noteq> [])"

definition stops_at :: "world \<Rightarrow> nat \<Rightarrow> bool" where
  "stops_at w k =
     (rpos w \<le> k \<and> blank_after_content w k \<and>
      list_all (\<lambda>j. \<not> blank_after_content w j) [rpos w..<k])"

text \<open>The system calls of one complete exchange that makes \<open>n\<close> calls of \<open>readline\<close>.\<close>

definition exchange_events :: "world \<Rightarrow> string \<Rightarrow> nat \<Rightarrow> event list" where
  "exchange_events w command n =
     [Exists (write_pipe_name w), Sleep, Exists (read_pipe_name w), Sleep,
      Open (write_pipe_name w) WriteMode, Open (read_pipe_name w) ReadMode,
      Write (write_pipe_name w) (command @ eol w), Flush (write_pipe_name w)]
     @ replicate n (Readline (read_pipe_name w))
     @ [Close (write_pipe_name w), Sleep, Close (read_pipe_name w)]"

text \<open>
  A peer that sends the given lines and then closes its end: every later \<open>readline\<close>
  returns the empty string. \<open>linux_world\<close> is a Linux host, user id 1000, on which both
  pipes exist, nothing is open and nothing has happened yet.
\<close>

definition peer_sends :: "string list \<Rightarrow> nat \<Rightarrow> string" where
  "peer_sends ls k = (if k < length ls then ls ! k else [])"

definition linux_world :: "string list \<Rightarrow> world" where
  "linux_world ls =
     \<lparr>platform = ''linux'', uid = 1000,
      paths = {''/tmp/audacity_script_pipe.to.1000'', ''/tmp/audacity_script_pipe.from.1000''},
      inbound = peer_sends ls, rpos = 0, open_files = [], trace = []\<rparr>"

text \<open>A Windows host on which both pipes exist.\<close>

definition windows_world :: "string list \<Rightarrow> world" where
  "windows_world ls =
     \<lparr>platform = ''win32'', uid = 0,
      paths = {win_write_pipe_name, win_read_pipe_name},
      inbound = peer_sends ls, rpos = 0, open_files = [], trace = []\<rparr>"

text \<open>
  Two worlds offer a call the same environment when they agree on the platform, the user
  id, the paths that exist and the lines the peer has yet to deliver; the log, the open
  files and the number of lines already consumed may differ. \<open>observed w out\<close> is what
  a call started in \<open>w\<close> with outcome \<open>out\<close> shows: its result, the system calls it
  made, the number of lines it consumed, and whether it left the open files as they
  were; \<open>None\<close> is the call that never returns.
\<close>

definition same_environment :: "world \<Rightarrow> world \<Rightarrow> bool" where
  "same_environment v w =
     (platform v = platform w \<and> uid v = uid w \<and> paths v = paths w \<and>
      (\<forall>j. inbound v (rpos v + j) = inbound w (rpos w + j)))"

definition observed ::
  "world \<Rightarrow> ((py_exception + string) \<times> world) option
     \<Rightarrow> ((py_exception + string) \<times> event list \<times> nat \<times> bool) option" where
  "observed w out =
     map_option (\<lambda>(r, w'). (r, drop (length (trace w)) (trace w'), rpos w' - rpos w,
                              open_files w' = open_files w)) out"

text \<open>
  \<open>delivers w raw\<close>: from the current read position on, \<open>readline\<close> returns the lines
  of the text that the peer sends as \<open>raw\<close>. It is meant for a \<open>raw\<close> that ends with a
  line feed, so that no line and no carriage return is left incomplete.
\<close>

definition delivers :: "world \<Rightarrow> string \<Rightarrow> bool" where
  "delivers w raw =
     list_all (\<lambda>j. inbound w (rpos w + j) = text_lines (universal_newlines raw) ! j)
       [0..<length (text_lines (universal_newlines raw))]"

text \<open>The command string that \<open>save\<close> hands to \<open>do\<close>.\<close>

definition save_command :: "string \<Rightarrow> pyval \<Rightarrow> pyval \<Rightarrow> string" where
  \<open>save_command filename add_to_history compress =
     ''SaveProject2: Filename="'' @ filename @ ''" AddToHistory="''
       @ format_val add_to_history @ ''" Compress="'' @ format_val compress @ ''"''\<close>

section \<open>The read loop\<close>

text \<open>
  The loop returns at line \<open>k\<close> when that line is a lone line feed, something has been
  accumulated by then, and no earlier line met both conditions.
\<close>

lemma read_loop_stops:
  assumes "rpos w \<le> k" "inbound w k = ''\<newline>''"
    "response @ line @ concat (map (inbound w) [rpos w..<k]) \<noteq> []"
    "\<forall>j. rpos w \<le> j \<and> j < k \<longrightarrow>
       \<not> (inbound w j = ''\<newline>'' \<and> response @ line @ concat (map (inbound w) [rpos w..<j]) \<noteq> [])"
  shows "read_loop f response line w =
     Some (response @ line @ concat (map (inbound w) [rpos w..<k]),
           w\<lparr>rpos := Suc k, trace := trace w @ replicate (Suc k - rpos w) (Readline (file_name f))\<rparr>)"
  using assms
proof (induction "k - rpos w" arbitrary: w response line)
  case 0
  then have k: "k = rpos w" by simp
  with 0 show ?case
    by (subst read_loop.simps) (simp add: readline_def Let_def)
next
  case (Suc n)
  let ?w' = "snd (readline f w)"
  have lt: "rpos w < k" using Suc.hyps(2) by simp
  have nostop: "\<not> (inbound w (rpos w) = ''\<newline>'' \<and> response @ line \<noteq> [])"
    using Suc.prems(4) lt by (auto dest: spec[where x="rpos w"])
  have upt: "\<And>j. rpos w < j \<Longrightarrow> [rpos w..<j] = rpos w # [Suc (rpos w)..<j]"
    by (simp add: upt_conv_Cons)
  have r': "rpos ?w' = Suc (rpos w)" "inbound ?w' = inbound w" "trace ?w' = trace w @ [Readline (file_name f)]"
    by (simp_all add: readline_def)
  have ih: "read_loop f (response @ line) (inbound w (rpos w)) ?w' =
     Some ((response @ line) @ inbound w (rpos w) @ concat (map (inbound ?w') [rpos ?w'..<k]),
           ?w'\<lparr>rpos := Suc k, trace := trace ?w' @ replicate (Suc k - rpos ?w') (Readline (file_name f))\<rparr>)"
  proof (rule Suc.hyps(1))
    show "n = k - rpos ?w'" using Suc.hyps(2) r' by simp
    show "rpos ?w' \<le> k" using lt r' by simp
    show "inbound ?w' k = ''\<newline>''" using Suc.prems(2) r' by simp
    show "(response @ line) @ inbound w (rpos w) @ concat (map (inbound ?w') [rpos ?w'..<k]) \<noteq> []"
      using Suc.prems(3) lt r' by (simp add: upt)
    show "\<forall>j. rpos ?w' \<le> j \<and> j < k \<longrightarrow>
       \<not> (inbound ?w' j = ''\<newline>'' \<and> (response @ line) @ inbound w (rpos w) @ concat (map (inbound ?w') [rpos ?w'..<j]) \<noteq> [])"
    proof (intro allI impI)
      fix j assume j: "rpos ?w' \<le> j \<and> j < k"
      then have a: "rpos w \<le> j \<and> j < k" and b: "rpos w < j" using r' by simp_all
      from Suc.prems(4) a
      have "\<not> (inbound w j = ''\<newline>'' \<and> response @ line @ concat (map (inbound w) [rpos w..<j]) \<noteq> [])"
        by blast
      then show "\<not> (inbound ?w' j = ''\<newline>'' \<and> (response @ line) @ inbound w (rpos w) @ concat (map (inbound ?w') [rpos ?w'..<j]) \<noteq> [])"
        using r' b by (simp add: upt)
    qed
  qed
  have "read_loop f response line w = read_loop f (response @ line) (inbound w (rpos w)) ?w'"
    using nostop by (subst read_loop.simps) (auto simp add: readline_def Let_def)
  also note ih
  finally show ?case using lt
    by (simp add: readline_def upt replicate_app_Cons_same Suc_diff_le)
qed

text \<open>Conversely, a loop that returns has met such a line.\<close>

lemma read_loop_Some_stop:
  "read_loop f response line w = Some y \<Longrightarrow>
     \<exists>k\<ge>rpos w. inbound w k = ''\<newline>'' \<and>
           response @ line @ concat (map (inbound w) [rpos w..<k]) \<noteq> []"
proof (erule read_loop.raw_induct[rotated 1, where P = "\<lambda>f response line w y. \<exists>k\<ge>rpos w. inbound w k = ''\<newline>'' \<and>
           response @ line @ concat (map (inbound w) [rpos w..<k]) \<noteq> []"], goal_cases)
  case (1 loop f response line w y)
  show ?case
  proof (cases "inbound w (rpos w) = ''\<newline>'' \<and> response @ line \<noteq> []")
    case True
    then show ?thesis by (intro exI[of _ "rpos w"]) simp
  next
    case False
    with 1(2) have "loop f (response @ line) (inbound w (rpos w)) (snd (readline f w)) = Some y"
      by (auto simp add: readline_def Let_def)
    from 1(1)[OF this] obtain k where k: "Suc (rpos w) \<le> k" "inbound w k = ''\<newline>''"
      "(response @ line) @ inbound w (rpos w) @ concat (map (inbound w) [Suc (rpos w)..<k]) \<noteq> []"
      by (auto simp add: readline_def)
    then have "[rpos w..<k] = rpos w # [Suc (rpos w)..<k]" by (simp add: upt_conv_Cons)
    with k show ?thesis by (intro exI[of _ k]) simp
  qed
qed

text \<open>The stopping line is the first of its kind, hence unique, and exists as soon as any such line does.\<close>

lemma stops_atD:
  "stops_at w k \<Longrightarrow> rpos w \<le> k \<and> inbound w k = ''\<newline>'' \<and> buffered w k \<noteq> [] \<and>
     (\<forall>j. rpos w \<le> j \<and> j < k \<longrightarrow> \<not> (inbound w j = ''\<newline>'' \<and> buffered w j \<noteq> []))"
  by (auto simp add: stops_at_def blank_after_content_def list_all_iff)

lemma ex_stops_at_iff:
  "(\<exists>k. stops_at w k) \<longleftrightarrow> (\<exists>k\<ge>rpos w. blank_after_content w k)"
proof
  assume "\<exists>k. stops_at w k"
  then show "\<exists>k\<ge>rpos w. blank_after_content w k" by (auto simp add: stops_at_def)
next
  assume "\<exists>k\<ge>rpos w. blank_after_content w k"
  then obtain k where k: "rpos w \<le> k \<and> blank_after_content w k" by blast
  define m where "m = (LEAST k. rpos w \<le> k \<and> blank_after_content w k)"
  have "rpos w \<le> m \<and> blank_after_content w m" unfolding m_def using k by (rule LeastI)
  moreover have "\<And>j. j < m \<Longrightarrow> \<not> (rpos w \<le> j \<and> blank_after_content w j)"
    unfolding m_def by (rule not_less_Least)
  ultimately have "stops_at w m" by (auto simp add: stops_at_def list_all_iff)
  then show "\<exists>k. stops_at w k" ..
qed

lemma read_loop_from_start:
  assumes "stops_at w k"
  shows "read_loop f [] [] w =
     Some (buffered w k,
           w\<lparr>rpos := Suc k, trace := trace w @ replicate (Suc k - rpos w) (Readline (file_name f))\<rparr>)"
  using stops_atD[OF assms] read_loop_stops[of w k "[]" "[]" f]
  by (simp add: buffered_def)

lemma read_loop_diverges:
  assumes "\<forall>k. \<not> stops_at w k"
  shows "read_loop f [] [] w = None"
proof (cases "read_loop f [] [] w")
  case None then show ?thesis .
next
  case (Some y)
  from read_loop_Some_stop[OF this] have "\<exists>k\<ge>rpos w. blank_after_content w k"
    by (simp add: blank_after_content_def buffered_def)
  with assms ex_stops_at_iff[of w] show ?thesis by blast
qed

lemma stops_at_cong:
  "inbound w' = inbound w \<Longrightarrow> rpos w' = rpos w \<Longrightarrow> stops_at w' k = stops_at w k"
  by (simp add: stops_at_def blank_after_content_def buffered_def)

lemma buffered_cong:
  "inbound w' = inbound w \<Longrightarrow> rpos w' = rpos w \<Longrightarrow> buffered w' k = buffered w k"
  by (simp add: buffered_def)

section \<open>What one call of \<open>do\<close> does\<close>

lemma do_missing_write:
  assumes "write_pipe_name w \<notin> paths w"
  shows "do c w = Some (Inl (PyAudacityException (write_pipe_name w @ does_not_exist)),
                        w\<lparr>trace := trace w @ [Exists (write_pipe_name w)]\<rparr>)"
  using assms by (simp add: do_def path_exists_def Let_def)

lemma do_missing_read:
  assumes "write_pipe_name w \<in> paths w" "read_pipe_name w \<notin> paths w"
  shows "do c w = Some (Inl (PyAudacityException (read_pipe_name w @ does_not_exist)),
                        w\<lparr>trace := trace w @ [Exists (write_pipe_name w), Sleep, Exists (read_pipe_name w)]\<rparr>)"
  using assms by (simp add: do_def path_exists_def sleep_def Let_def)

lemma do_returns:
  assumes "write_pipe_name w \<in> paths w" "read_pipe_name w \<in> paths w" "stops_at w k"
  shows "do c w =
     Some (if str_in failure_marker (buffered w k)
           then Inl (PyAudacityException (buffered w k)) else Inr (buffered w k),
           w\<lparr>rpos := Suc k, trace := trace w @ exchange_events w c (Suc k - rpos w)\<rparr>)"
proof -
  define v where "v = w\<lparr>open_files := \<lparr>file_name = read_pipe_name w, file_mode = ReadMode\<rparr>
                           # \<lparr>file_name = write_pipe_name w, file_mode = WriteMode\<rparr> # open_files w,
                        trace := trace w @ [Exists (write_pipe_name w), Sleep, Exists (read_pipe_name w), Sleep,
      Open (write_pipe_name w) WriteMode, Open (read_pipe_name w) ReadMode,
      Write (write_pipe_name w) (c @ eol w), Flush (write_pipe_name w)]\<rparr>"
  have iv: "inbound v = inbound w" "rpos v = rpos w" by (simp_all add: v_def)
  have sv: "stops_at v k" using assms(3) stops_at_cong[OF iv] by simp
  have bv: "buffered v k = buffered w k" using buffered_cong[OF iv] by simp
  have loop: "read_loop \<lparr>file_name = read_pipe_name w, file_mode = ReadMode\<rparr> [] [] v = Some (buffered w k,
           v\<lparr>rpos := Suc k, trace := trace v @ replicate (Suc k - rpos v) (Readline (read_pipe_name w))\<rparr>)"
    using read_loop_from_start[OF sv, of "\<lparr>file_name = read_pipe_name w, file_mode = ReadMode\<rparr>"] bv by simp
  have "do c w = (case read_loop \<lparr>file_name = read_pipe_name w, file_mode = ReadMode\<rparr> [] [] v of None \<Rightarrow> None
     | Some (response, w') \<Rightarrow>
                       let w' = close \<lparr>file_name = write_pipe_name w, file_mode = WriteMode\<rparr> w';
                           w' = sleep w';
                           w' = close \<lparr>file_name = read_pipe_name w, file_mode = ReadMode\<rparr> w'
                       in if str_in failure_marker response
                          then Some (Inl (PyAudacityException response), w')
                          else Some (Inr response, w'))"
    using assms(1,2)
    by (simp add: do_def path_exists_def sleep_def open_file_def pipe_write_def flush_def Let_def v_def)
  also have "\<dots> = Some (if str_in failure_marker (buffered w k)
           then Inl (PyAudacityException (buffered w k)) else Inr (buffered w k),
           w\<lparr>rpos := Suc k, trace := trace w @ exchange_events w c (Suc k - rpos w)\<rparr>)"
    unfolding loop by (simp add: close_def sleep_def v_def exchange_events_def)
  finally show ?thesis .
qed

lemma do_diverges:
  assumes "write_pipe_name w \<in> paths w" "read_pipe_name w \<in> paths w" "\<forall>k. \<not> stops_at w k"
  shows "do c w = None"
proof -
  define v where "v = w\<lparr>open_files := \<lparr>file_name = read_pipe_name w, file_mode = ReadMode\<rparr>
                           # \<lparr>file_name = write_pipe_name w, file_mode = WriteMode\<rparr> # open_files w,
                        trace := trace w @ [Exists (write_pipe_name w), Sleep, Exists (read_pipe_name w), Sleep,
      Open (write_pipe_name w) WriteMode, Open (read_pipe_name w) ReadMode,
      Write (write_pipe_name w) (c @ eol w), Flush (write_pipe_name w)]\<rparr>"
  have iv: "inbound v = inbound w" "rpos v = rpos w" by (simp_all add: v_def)
  have sv: "\<forall>k. \<not> stops_at v k" using assms(3) stops_at_cong[OF iv] by simp
  have loop: "read_loop \<lparr>file_name = read_pipe_name w, file_mode = ReadMode\<rparr> [] [] v = None"
    using read_loop_diverges[OF sv] .
  have "do c w = (case read_loop \<lparr>file_name = read_pipe_name w, file_mode = ReadMode\<rparr> [] [] v of None \<Rightarrow> None
     | Some (response, w') \<Rightarrow>
                       let w' = close \<lparr>file_name = write_pipe_name w, file_mode = WriteMode\<rparr> w';
                           w' = sleep w';
                           w' = close \<lparr>file_name = read_pipe_name w, file_mode = ReadMode\<rparr> w'
                       in if str_in failure_marker response
                          then Some (Inl (PyAudacityException response), w')
                          else Some (Inr response, w'))"
    using assms(1,2)
    by (simp add: do_def path_exists_def sleep_def open_file_def pipe_write_def flush_def Let_def v_def)
  then show ?thesis unfolding loop by simp
qed

section \<open>Auxiliary facts\<close>

text \<open>\<open>str_in\<close> is the substring relation.\<close>

lemma str_in_iff: "str_in sub s \<longleftrightarrow> (\<exists>ps ss. s = ps @ sub @ ss)"
proof -
  have "str_in sub s = sublist sub s"
    by (induction s) (simp_all add: sublist_Cons_right)
  then show ?thesis by (simp add: sublist_def)
qed

lemma str_nat_1000: "str_nat 1000 = ''1000''"
  by (simp add: str_nat.simps digit_def)

lemma linux_world_names:
  "write_pipe_name (linux_world ls) = ''/tmp/audacity_script_pipe.to.1000''"
  "read_pipe_name (linux_world ls) = ''/tmp/audacity_script_pipe.from.1000''"
  "eol (linux_world ls) = ''\<newline>''"
  by (simp_all add: write_pipe_name_def read_pipe_name_def eol_def linux_world_def str_nat_1000)

lemma names_frame:
  "platform w' = platform w \<Longrightarrow> uid w' = uid w \<Longrightarrow>
     write_pipe_name w' = write_pipe_name w \<and> read_pipe_name w' = read_pipe_name w \<and> eol w' = eol w"
  by (simp add: write_pipe_name_def read_pipe_name_def eol_def)

lemma stops_at_linux_world_1:
  "l \<noteq> [] \<Longrightarrow> stops_at (linux_world (l # ''\<newline>'' # ls)) (Suc 0)"
  by (simp add: stops_at_def blank_after_content_def buffered_def linux_world_def peer_sends_def)

lemma buffered_linux_world_1:
  "buffered (linux_world (l # ls)) (Suc 0) = l"
  by (simp add: buffered_def linux_world_def peer_sends_def)

lemma linux_world_paths:
  "write_pipe_name (linux_world ls) \<in> paths (linux_world ls)"
  "read_pipe_name (linux_world ls) \<in> paths (linux_world ls)"
  by (simp_all add: linux_world_names) (simp_all add: linux_world_def)

section \<open>Further facts about \<open>do\<close> and \<open>save\<close>\<close>

lemma read_loop_None_iff:
  "read_loop f [] [] w = None \<longleftrightarrow> \<not> (\<exists>k. stops_at w k)"
proof
  assume "read_loop f [] [] w = None"
  show "\<not> (\<exists>k. stops_at w k)"
  proof
    assume "\<exists>k. stops_at w k"
    then obtain k where "stops_at w k" ..
    from read_loop_from_start[OF this, of f] \<open>read_loop f [] [] w = None\<close> show False by simp
  qed
next
  assume "\<not> (\<exists>k. stops_at w k)"
  then show "read_loop f [] [] w = None" using read_loop_diverges[of w f] by simp
qed

lemma do_None_iff:
  assumes "write_pipe_name w \<in> paths w" and "read_pipe_name w \<in> paths w"
  shows "do c w = None \<longleftrightarrow> \<not> (\<exists>k. stops_at w k)"
proof
  assume "do c w = None"
  show "\<not> (\<exists>k. stops_at w k)"
  proof
    assume "\<exists>k. stops_at w k"
    then obtain k where "stops_at w k" ..
    from do_returns[OF assms this, of c] \<open>do c w = None\<close> show False by simp
  qed
next
  assume "\<not> (\<exists>k. stops_at w k)"
  then show "do c w = None" using do_diverges[OF assms, of c] by simp
qed

lemma blank_line_iff:
  "(\<exists>k. stops_at w k) \<longleftrightarrow> (\<exists>k\<ge>rpos w. inbound w k = ''\<newline>'' \<and> buffered w k \<noteq> [])"
  by (simp only: ex_stops_at_iff blank_after_content_def)

lemma not_None_iff: "(\<exists>y. x = Some y) \<longleftrightarrow> x \<noteq> None"
  by simp

lemma no_blank_line_sample:
  "\<not> (\<exists>k\<ge>rpos (linux_world [''line1\<newline>'']).
        inbound (linux_world [''line1\<newline>'']) k = ''\<newline>'' \<and> buffered (linux_world [''line1\<newline>'']) k \<noteq> [])"
  by (simp add: linux_world_def peer_sends_def)

lemma do_Some_iff:
  assumes "write_pipe_name w \<in> paths w" and "read_pipe_name w \<in> paths w"
  shows "do c w = Some (r, w') \<longleftrightarrow>
     (\<exists>k. stops_at w k \<and>
        r = (if str_in failure_marker (buffered w k)
             then Inl (PyAudacityException (buffered w k)) else Inr (buffered w k)) \<and>
        w' = w\<lparr>rpos := Suc k, trace := trace w @ exchange_events w c (Suc k - rpos w)\<rparr>)"
proof
  assume s: "do c w = Some (r, w')"
  then have "do c w \<noteq> None" by simp
  then have "\<exists>k. stops_at w k" using do_None_iff[OF assms, of c] by simp
  then obtain k where k: "stops_at w k" ..
  from do_returns[OF assms k, of c] s
  have "r = (if str_in failure_marker (buffered w k)
             then Inl (PyAudacityException (buffered w k)) else Inr (buffered w k))"
    and "w' = w\<lparr>rpos := Suc k, trace := trace w @ exchange_events w c (Suc k - rpos w)\<rparr>"
    by simp_all
  with k show "\<exists>k. stops_at w k \<and>
        r = (if str_in failure_marker (buffered w k)
             then Inl (PyAudacityException (buffered w k)) else Inr (buffered w k)) \<and>
        w' = w\<lparr>rpos := Suc k, trace := trace w @ exchange_events w c (Suc k - rpos w)\<rparr>"
    by blast
next
  assume "\<exists>k. stops_at w k \<and>
        r = (if str_in failure_marker (buffered w k)
             then Inl (PyAudacityException (buffered w k)) else Inr (buffered w k)) \<and>
        w' = w\<lparr>rpos := Suc k, trace := trace w @ exchange_events w c (Suc k - rpos w)\<rparr>"
  then obtain k where k: "stops_at w k" and r: "r = (if str_in failure_marker (buffered w k)
             then Inl (PyAudacityException (buffered w k)) else Inr (buffered w k))"
    and w': "w' = w\<lparr>rpos := Suc k, trace := trace w @ exchange_events w c (Suc k - rpos w)\<rparr>"
    by blast
  show "do c w = Some (r, w')"
    unfolding r w' by (rule do_returns[OF assms k])
qed

lemma buffered_start: "buffered w (rpos w) = []"
  by (simp add: buffered_def)

lemma buffered_Suc: "rpos w \<le> k \<Longrightarrow> buffered w (Suc k) = buffered w k @ inbound w k"
  by (simp add: buffered_def)

lemma buffered_first:
  assumes "rpos w < k"
  shows "buffered w k = inbound w (rpos w) @ concat (map (inbound w) [Suc (rpos w)..<k])"
  using assms by (simp add: buffered_def upt_conv_Cons)

lemma blank_first_line:
  assumes "inbound w (rpos w) = ''\<newline>''"
  shows "\<not> stops_at w (rpos w)"
    and "stops_at w k \<Longrightarrow> take (Suc 0) (buffered w k) = ''\<newline>''"
    and "inbound w (Suc (rpos w)) = ''\<newline>'' \<Longrightarrow> stops_at w (Suc (rpos w))"
proof -
  show n: "\<not> stops_at w (rpos w)"
    by (simp add: stops_at_def blank_after_content_def buffered_start)
  show "take (Suc 0) (buffered w k) = ''\<newline>''" if "stops_at w k"
  proof -
    have "rpos w \<le> k" using that by (simp add: stops_at_def)
    moreover have "k \<noteq> rpos w" using that n by auto
    ultimately have "rpos w < k" by simp
    from buffered_first[OF this] assms show ?thesis by simp
  qed
  show "stops_at w (Suc (rpos w))" if "inbound w (Suc (rpos w)) = ''\<newline>''"
    using that assms
    by (simp add: stops_at_def blank_after_content_def buffered_Suc buffered_start)
qed

lemma stops_at_linux_world_2:
  "stops_at (linux_world [''\<newline>'', ''line1\<newline>'', ''\<newline>'']) (Suc (Suc 0))"
  "buffered (linux_world [''\<newline>'', ''line1\<newline>'', ''\<newline>'']) (Suc (Suc 0)) = ''\<newline>line1\<newline>''"
  by (simp_all add: stops_at_def blank_after_content_def buffered_def linux_world_def peer_sends_def)

lemma stops_at_linux_world_two_blank:
  "stops_at (linux_world [''\<newline>'', ''\<newline>'']) (Suc 0)"
  "buffered (linux_world [''\<newline>'', ''\<newline>'']) (Suc 0) = ''\<newline>''"
  by (simp_all add: stops_at_def blank_after_content_def buffered_def linux_world_def peer_sends_def)

lemma never_stops_sample:
  "\<forall>k. \<not> stops_at (linux_world [[], ''line1\<newline>'', []]) k"
  by (auto simp add: stops_at_def blank_after_content_def linux_world_def peer_sends_def nth_Cons'
      split: if_splits)

lemma marker_not_in_line:
  assumes "\<not> (\<exists>ps ss. c = ps @ failure_marker @ ss)"
  shows "\<not> str_in failure_marker (c @ ''\<newline>'')"
proof
  assume "str_in failure_marker (c @ ''\<newline>'')"
  then obtain ps ss where e: "c @ ''\<newline>'' = ps @ failure_marker @ ss"
    unfolding str_in_iff by blast
  show False
  proof (cases ss rule: rev_cases)
    case Nil
    with e have "last (c @ ''\<newline>'') = last (ps @ failure_marker)" by simp
    then show False by (simp add: failure_marker_def)
  next
    case (snoc ss' x)
    with e have "c @ ''\<newline>'' = (ps @ failure_marker @ ss') @ [x]" by simp
    then have "c = ps @ failure_marker @ ss'" by (simp only: append1_eq_conv)
    with assms show False by blast
  qed
qed

lemma echo_stops:
  assumes "inbound w (rpos w) = c @ ''\<newline>''" and "inbound w (Suc (rpos w)) = ''\<newline>''"
  shows "stops_at w (Suc (rpos w))" and "buffered w (Suc (rpos w)) = c @ ''\<newline>''"
  using assms
  by (simp_all add: stops_at_def blank_after_content_def buffered_def)

lemma do_exchange:
  assumes "write_pipe_name w \<in> paths w" and "read_pipe_name w \<in> paths w" and "stops_at w k"
  shows "\<exists>r w'. do c w = Some (r, w')
           \<and> (r = Inl (PyAudacityException (buffered w k)) \<or> r = Inr (buffered w k))
           \<and> trace w' = trace w @ exchange_events w c (Suc k - rpos w)
           \<and> open_files w' = open_files w \<and> rpos w' = Suc k
           \<and> platform w' = platform w \<and> uid w' = uid w \<and> paths w' = paths w
           \<and> inbound w' = inbound w"
  using do_returns[OF assms, of c] by simp

lemma linux_world_sel:
  "platform (linux_world ls) = ''linux''" "uid (linux_world ls) = 1000"
  "rpos (linux_world ls) = 0" "trace (linux_world ls) = []" "open_files (linux_world ls) = []"
  "inbound (linux_world ls) = peer_sends ls"
  by (simp_all add: linux_world_def)

lemma windows_world_sel:
  "platform (windows_world ls) = ''win32''"
  "rpos (windows_world ls) = 0" "trace (windows_world ls) = []" "open_files (windows_world ls) = []"
  "inbound (windows_world ls) = peer_sends ls"
  "paths (windows_world ls) = {win_write_pipe_name, win_read_pipe_name}"
  by (simp_all add: windows_world_def)

lemma stops_at_peer_sends_1:
  assumes "inbound w = peer_sends (l # ''\<newline>'' # ls)" and "rpos w = 0" and "l \<noteq> []"
  shows "stops_at w (Suc 0)" and "buffered w (Suc 0) = l"
  using assms by (simp_all add: stops_at_def blank_after_content_def buffered_def peer_sends_def)

lemma digit_in: "d < 10 \<Longrightarrow> digit d \<in> set ''0123456789''"
  unfolding digit_def by (rule nth_mem) simp

lemma str_nat_digits: "set (str_nat n) \<subseteq> set ''0123456789''"
proof (induction n rule: str_nat.induct)
  case (1 n)
  show ?case
  proof (cases "n < 10")
    case True
    then show ?thesis using digit_in[of n] by (subst str_nat.simps) simp
  next
    case False
    have "n mod 10 < 10" by simp
    from digit_in[OF this] 1[OF False] False show ?thesis
      by (subst str_nat.simps) simp
  qed
qed

lemma no_bang_in_missing_message:
  "CHR ''!'' \<notin> set (write_pipe_name w @ does_not_exist)"
  "CHR ''!'' \<notin> set (read_pipe_name w @ does_not_exist)"
  using str_nat_digits[of "uid w"]
  by (auto simp add: write_pipe_name_def read_pipe_name_def does_not_exist_def
      win_write_pipe_name_def win_read_pipe_name_def backslash_def)

lemma marker_has_bang:
  "m = ps @ failure_marker @ ss \<Longrightarrow> CHR ''!'' \<in> set m"
  by (simp add: failure_marker_def)

lemma missing_message_has_no_marker:
  "\<not> (\<exists>ps ss. write_pipe_name w @ does_not_exist = ps @ failure_marker @ ss)"
  "\<not> (\<exists>ps ss. read_pipe_name w @ does_not_exist = ps @ failure_marker @ ss)"
  using no_bang_in_missing_message[of w] marker_has_bang by blast+

lemma do_frame:
  assumes "do c w = Some (r, w')"
  shows "platform w' = platform w \<and> uid w' = uid w \<and> paths w' = paths w
         \<and> inbound w' = inbound w \<and> open_files w' = open_files w \<and> rpos w \<le> rpos w'
         \<and> (\<exists>evs. trace w' = trace w @ evs \<and> (\<forall>p. Unlink p \<notin> set evs))"
proof (cases "write_pipe_name w \<in> paths w")
  case False
  from do_missing_write[OF False, of c] assms show ?thesis by auto
next
  case wp: True
  show ?thesis
  proof (cases "read_pipe_name w \<in> paths w")
    case False
    from do_missing_read[OF wp False, of c] assms show ?thesis by auto
  next
    case rp: True
    from assms obtain k where k: "stops_at w k"
      and w': "w' = w\<lparr>rpos := Suc k, trace := trace w @ exchange_events w c (Suc k - rpos w)\<rparr>"
      unfolding do_Some_iff[OF wp rp] by blast
    have "rpos w \<le> k" using k by (simp add: stops_at_def)
    moreover have "\<forall>p. Unlink p \<notin> set (exchange_events w c (Suc k - rpos w))"
      by (auto simp add: exchange_events_def)
    ultimately show ?thesis unfolding w' by simp
  qed
qed

lemma upt_shift: "[n..<n + j] = map (\<lambda>i. n + i) [0..<j]"
  by (induction j) simp_all

lemma list_all_shift: "list_all P [n..<n + j] = (\<forall>i<j. P (n + i))"
  by (induction j) (auto simp add: less_Suc_eq)

lemma buffered_shift:
  assumes "same_environment v w"
  shows "buffered v (rpos v + j) = buffered w (rpos w + j)"
proof -
  have "map (inbound v) [rpos v..<rpos v + j] = map (inbound w) [rpos w..<rpos w + j]"
    using assms by (simp add: upt_shift[of "rpos v"] upt_shift[of "rpos w"] same_environment_def)
  then show ?thesis by (simp add: buffered_def)
qed

lemma blank_shift:
  assumes "same_environment v w"
  shows "blank_after_content v (rpos v + j) = blank_after_content w (rpos w + j)"
  using assms buffered_shift[OF assms, of j]
  by (simp add: blank_after_content_def same_environment_def)

lemma stops_at_shift:
  assumes "same_environment v w"
  shows "stops_at v (rpos v + j) = stops_at w (rpos w + j)"
  using blank_shift[OF assms]
  by (simp only: stops_at_def list_all_shift le_add1)

lemma same_environment_names:
  assumes "same_environment v w"
  shows "write_pipe_name v = write_pipe_name w" "read_pipe_name v = read_pipe_name w"
    "eol v = eol w" "exchange_events v c n = exchange_events w c n"
  using assms
  by (simp_all add: same_environment_def write_pipe_name_def read_pipe_name_def eol_def
      exchange_events_def)

lemma observed_do:
  assumes "same_environment v w"
  shows "observed v (do c v) = observed w (do c w)"
proof -
  note n = same_environment_names[OF assms]
  have p: "paths v = paths w" using assms by (simp add: same_environment_def)
  show ?thesis
  proof (cases "write_pipe_name w \<in> paths w")
    case False
    then have "write_pipe_name v \<notin> paths v" by (simp add: n p)
    from do_missing_write[OF this, of c] do_missing_write[OF False, of c]
    show ?thesis by (simp add: observed_def n)
  next
    case wp: True
    then have wpv: "write_pipe_name v \<in> paths v" by (simp add: n p)
    show ?thesis
    proof (cases "read_pipe_name w \<in> paths w")
      case False
      then have "read_pipe_name v \<notin> paths v" by (simp add: n p)
      from do_missing_read[OF wpv this, of c] do_missing_read[OF wp False, of c]
      show ?thesis by (simp add: observed_def n)
    next
      case rp: True
      then have rpv: "read_pipe_name v \<in> paths v" by (simp add: n p)
      show ?thesis
      proof (cases "\<exists>k. stops_at w k")
        case True
        then obtain k where k: "stops_at w k" ..
        then have "rpos w \<le> k" by (simp add: stops_at_def)
        then obtain j where j: "k = rpos w + j" using le_Suc_ex by blast
        have kv: "stops_at v (rpos v + j)" using k stops_at_shift[OF assms, of j] by (simp add: j)
        from do_returns[OF wpv rpv kv, of c] do_returns[OF wp rp k, of c]
        show ?thesis
          by (simp add: observed_def n j buffered_shift[OF assms, of j])
      next
        case False
        have "\<not> (\<exists>k. stops_at v k)"
        proof
          assume "\<exists>k. stops_at v k"
          then obtain k where k: "stops_at v k" ..
          then have "rpos v \<le> k" by (simp add: stops_at_def)
          then obtain j where j: "k = rpos v + j" using le_Suc_ex by blast
          from k stops_at_shift[OF assms, of j] have "stops_at w (rpos w + j)" by (simp add: j)
          with False show False by blast
        qed
        with False do_None_iff[OF wp rp, of c] do_None_iff[OF wpv rpv, of c]
        show ?thesis by (simp add: observed_def)
      qed
    qed
  qed
qed

lemma peer_sends_drop: "peer_sends (a # b # ls) (Suc (Suc 0) + j) = peer_sends ls (0 + j)"
  by (simp add: peer_sends_def)

lemma save_no_overwrite:
  assumes "\<not> truthy allow_overwrite"
  shows "save filename add_to_history compress allow_overwrite w =
     (if \<not> isinstance_bool add_to_history
      then Some (Inl (PyAudacityException
             (''add_to_history argument must be a bool, not'' @ str_type add_to_history)), w)
      else if \<not> isinstance_bool compress
      then Some (Inl (PyAudacityException
             (''compress argument must be a bool, not'' @ str_type compress)), w)
      else do (save_command filename add_to_history compress) w)"
  using assms by (simp add: save_def save_command_def)

lemma save_overwrite:
  assumes "truthy allow_overwrite" and "filename \<in> paths w"
  shows "save filename add_to_history compress allow_overwrite w =
         save filename add_to_history compress (PyBool False)
           (w\<lparr>paths := paths w - {filename}, trace := trace w @ [Exists filename, Unlink filename]\<rparr>)"
  using assms by (simp add: save_def path_exists_def unlink_def)

lemma save_no_overwrite_frame:
  assumes "\<not> truthy allow_overwrite"
    and "save filename add_to_history compress allow_overwrite w = Some (r, w')"
  shows "paths w' = paths w \<and> (\<exists>evs. trace w' = trace w @ evs \<and> (\<forall>p. Unlink p \<notin> set evs))"
proof (cases "isinstance_bool add_to_history \<and> isinstance_bool compress")
  case True
  with assms have "do (save_command filename add_to_history compress) w = Some (r, w')"
    by (simp add: save_no_overwrite)
  from do_frame[OF this] show ?thesis by blast
next
  case False
  with assms have "w' = w" by (auto simp add: save_no_overwrite split: if_splits)
  then show ?thesis by simp
qed

lemma do_exchange_trace:
  assumes "write_pipe_name w \<in> paths w" and "read_pipe_name w \<in> paths w" and "stops_at w k"
    and "do c w = Some (r, w')"
  shows "trace w' = trace w @ exchange_events w c (Suc k - rpos w)"
  using do_returns[OF assms(1,2,3), of c] assms(4) by simp

lemma save_returns:
  assumes "write_pipe_name w \<in> paths w" and "read_pipe_name w \<in> paths w" and "stops_at w k"
    and "\<not> truthy allow_overwrite" and "isinstance_bool add_to_history" and "isinstance_bool compress"
  shows "\<exists>r w'. save filename add_to_history compress allow_overwrite w = Some (r, w')"
proof -
  from do_exchange[OF assms(1,2,3), of "save_command filename add_to_history compress"]
  obtain r w' where "do (save_command filename add_to_history compress) w = Some (r, w')"
    by blast
  then show ?thesis using assms(4,5,6) by (simp add: save_no_overwrite)
qed

lemma decode_newlines_plain:
  "CHR ''\<newline>'' \<notin> set c \<Longrightarrow> CHR 0x0D \<notin> set c \<Longrightarrow>
     decode_newlines b (c @ s) = c @ decode_newlines (if c = [] then b else False) s"
  by (induction c arbitrary: b) auto

lemma universal_newlines_echo:
  assumes "CHR ''\<newline>'' \<notin> set c" and "CHR 0x0D \<notin> set c"
    and "t = ''\<newline>'' \<or> t = [CHR 0x0D, CHR ''\<newline>'']"
  shows "universal_newlines (c @ t @ t) = c @ ''\<newline>\<newline>''"
proof -
  have "decode_newlines False (t @ t) = ''\<newline>\<newline>''"
    using assms(3) by auto
  then show ?thesis
    using decode_newlines_plain[OF assms(1,2), of False "t @ t"]
    by (simp add: universal_newlines_def)
qed

lemma text_lines_first:
  "CHR ''\<newline>'' \<notin> set c \<Longrightarrow>
     text_lines (c @ CHR ''\<newline>'' # s) = (c @ ''\<newline>'') # text_lines s"
  by (induction c) auto

lemma text_lines_echo:
  assumes "CHR ''\<newline>'' \<notin> set c"
  shows "text_lines (c @ ''\<newline>\<newline>'') = [c @ ''\<newline>'', ''\<newline>'']"
  using text_lines_first[OF assms, of "''\<newline>''"] by simp

lemma delivers_echo:
  assumes "CHR ''\<newline>'' \<notin> set c" and "CHR 0x0D \<notin> set c"
    and "t = ''\<newline>'' \<or> t = [CHR 0x0D, CHR ''\<newline>'']"
    and "delivers w (c @ t @ t)"
  shows "inbound w (rpos w) = c @ ''\<newline>''" and "inbound w (Suc (rpos w)) = ''\<newline>''"
  using assms(4)
  unfolding delivers_def universal_newlines_echo[OF assms(1,2,3)] text_lines_echo[OF assms(1)]
  by (simp_all add: upt_rec)

lemma delivers_linux_world: "delivers (linux_world (text_lines (universal_newlines raw))) raw"
  by (simp add: delivers_def linux_world_sel peer_sends_def list_all_iff)

lemma do_returns_line_then_blank:
  assumes "write_pipe_name w \<in> paths w" and "read_pipe_name w \<in> paths w"
    and "inbound w (rpos w) = c @ ''\<newline>''" and "inbound w (Suc (rpos w)) = ''\<newline>''"
    and "\<not> (\<exists>ps ss. c = ps @ failure_marker @ ss)"
  shows "\<exists>w'. do c w = Some (Inr (c @ ''\<newline>''), w') \<and> rpos w' = rpos w + 2"
  using do_returns[OF assms(1,2) echo_stops(1)[OF assms(3,4)], of c]
    marker_not_in_line[OF assms(5)]
  by (simp add: echo_stops(2)[OF assms(3,4)])

lemma echo_samples:
  "text_lines (universal_newlines ([CHR ''x'', CHR 0x0D] @ ''\<newline>'' @ ''\<newline>''))
     = [''x\<newline>'', ''\<newline>'']"
  "text_lines (universal_newlines (''a\<newline>\<newline>b'' @ ''\<newline>'' @ ''\<newline>''))
     = [''a\<newline>'', ''\<newline>'', ''b\<newline>'', ''\<newline>'']"
  by (simp_all add: universal_newlines_def)

section \<open>The claims\<close>

text \<open>
  C1 as stated fails. For a peer that sends a blank line, \<open>line1\<close> and a blank line,
  \<open>do\<close> returns the text with the leading blank line, not \<open>line1\<close> alone; for a peer
  that sends two blank lines it returns after the second one, so the first did count as
  content. Read with empty strings in place of the blank lines, the scenario never
  returns: the empty string is end of input and is not the terminator.
\<close>

theorem blank_first_line_is_returned_counterexample:
  "map_option fst (do ''New'' (linux_world [''\<newline>'', ''line1\<newline>'', ''\<newline>''])) = Some (Inr ''\<newline>line1\<newline>'')
   \<and> map_option fst (do ''New'' (linux_world [''\<newline>'', ''line1\<newline>'', ''\<newline>''])) \<noteq> Some (Inr ''line1\<newline>'')
   \<and> map_option fst (do ''New'' (linux_world [''\<newline>'', ''\<newline>''])) = Some (Inr ''\<newline>'')
   \<and> do ''New'' (linux_world [[], ''line1\<newline>'', []]) = None"
  using do_returns[OF linux_world_paths stops_at_linux_world_2(1), of "''New''"]
    do_returns[OF linux_world_paths stops_at_linux_world_two_blank(1), of "''New''"]
    do_diverges[OF linux_world_paths never_stops_sample, of "''New''"]
  by (simp add: stops_at_linux_world_2(2) stops_at_linux_world_two_blank(2) failure_marker_def)

text \<open>
  C1, as amended. With both pipes present, \<open>do\<close> leaves its read loop exactly at the
  first lone line feed that is read while the buffer is non-empty, and returns (or raises
  with) the buffer as it then stands. A lone line feed read first does not end the loop,
  because the buffer is empty at that moment; it is appended to the buffer like any other
  line, so the result starts with it, and a second lone line feed right after it ends the
  loop.
\<close>

theorem do_returns_at_first_blank_line_after_content:
  assumes "write_pipe_name w \<in> paths w" and "read_pipe_name w \<in> paths w"
  shows "(\<forall>r w'. do c w = Some (r, w') \<longrightarrow>
            (\<exists>k. stops_at w k \<and> rpos w' = Suc k \<and>
                 r = (if str_in failure_marker (buffered w k)
                      then Inl (PyAudacityException (buffered w k)) else Inr (buffered w k))))
       \<and> (\<forall>k. stops_at w k \<longrightarrow>
            (\<exists>w'. do c w = Some (if str_in failure_marker (buffered w k)
                                  then Inl (PyAudacityException (buffered w k))
                                  else Inr (buffered w k), w') \<and> rpos w' = Suc k))
       \<and> (inbound w (rpos w) = ''\<newline>'' \<longrightarrow>
            \<not> stops_at w (rpos w)
            \<and> (\<forall>k. stops_at w k \<longrightarrow> take 1 (buffered w k) = ''\<newline>'')
            \<and> (inbound w (Suc (rpos w)) = ''\<newline>'' \<longrightarrow> stops_at w (Suc (rpos w))))"
proof (intro conjI allI impI)
  fix r w' assume "do c w = Some (r, w')"
  then obtain k where "stops_at w k"
    "r = (if str_in failure_marker (buffered w k)
             then Inl (PyAudacityException (buffered w k)) else Inr (buffered w k))"
    "w' = w\<lparr>rpos := Suc k, trace := trace w @ exchange_events w c (Suc k - rpos w)\<rparr>"
    unfolding do_Some_iff[OF assms] by blast
  then show "\<exists>k. stops_at w k \<and> rpos w' = Suc k \<and>
                 r = (if str_in failure_marker (buffered w k)
                      then Inl (PyAudacityException (buffered w k)) else Inr (buffered w k))"
    by (intro exI[of _ k]) simp
next
  fix k assume "stops_at w k"
  from do_returns[OF assms this, of c]
  show "\<exists>w'. do c w = Some (if str_in failure_marker (buffered w k)
                                  then Inl (PyAudacityException (buffered w k))
                                  else Inr (buffered w k), w') \<and> rpos w' = Suc k"
    by simp
qed (simp_all add: blank_first_line)

text \<open>The amended C1 at the scenario of the claim.\<close>

theorem do_returns_at_first_blank_line_after_content_witness:
  "write_pipe_name (linux_world [''\<newline>'', ''line1\<newline>'', ''\<newline>''])
     \<in> paths (linux_world [''\<newline>'', ''line1\<newline>'', ''\<newline>''])
   \<and> read_pipe_name (linux_world [''\<newline>'', ''line1\<newline>'', ''\<newline>''])
     \<in> paths (linux_world [''\<newline>'', ''line1\<newline>'', ''\<newline>''])
   \<and> stops_at (linux_world [''\<newline>'', ''line1\<newline>'', ''\<newline>'']) 2
   \<and> inbound (linux_world [''\<newline>'', ''line1\<newline>'', ''\<newline>''])
        (rpos (linux_world [''\<newline>'', ''line1\<newline>'', ''\<newline>''])) = ''\<newline>''
   \<and> \<not> stops_at (linux_world [''\<newline>'', ''line1\<newline>'', ''\<newline>''])
          (rpos (linux_world [''\<newline>'', ''line1\<newline>'', ''\<newline>'']))
   \<and> take 1 (buffered (linux_world [''\<newline>'', ''line1\<newline>'', ''\<newline>'']) 2) = ''\<newline>''
   \<and> (\<exists>w'. do ''New'' (linux_world [''\<newline>'', ''line1\<newline>'', ''\<newline>'']) = Some (Inr ''\<newline>line1\<newline>'', w')
            \<and> rpos w' = 3)"
proof -
  let ?w = "linux_world [''\<newline>'', ''line1\<newline>'', ''\<newline>'']"
  note T = do_returns_at_first_blank_line_after_content[of ?w "''New''", OF linux_world_paths]
  have s: "stops_at ?w 2" using stops_at_linux_world_2(1) by (simp add: numeral_2_eq_2)
  have b: "buffered ?w 2 = ''\<newline>line1\<newline>''" using stops_at_linux_world_2(2) by (simp add: numeral_2_eq_2)
  have i: "inbound ?w (rpos ?w) = ''\<newline>''" by (simp add: linux_world_def peer_sends_def)
  from T[THEN conjunct2, THEN conjunct1, rule_format, OF s]
  have d: "\<exists>w'. do ''New'' ?w = Some (Inr ''\<newline>line1\<newline>'', w') \<and> rpos w' = 3"
    by (simp add: b failure_marker_def)
  from T[THEN conjunct2, THEN conjunct2, rule_format, OF i]
  have n: "\<not> stops_at ?w (rpos ?w)" and t: "take 1 (buffered ?w 2) = ''\<newline>''"
    using s by blast+
  show ?thesis
    by (intro conjI linux_world_paths s i n t d)
qed

text \<open>
  C2 as stated fails in three ways. A command that contains the failure marker is echoed
  with the marker, and \<open>do\<close> raises instead of returning the echoed line. A command that
  ends with a carriage return, echoed with a line feed as terminator, comes back with
  carriage return and line feed decoded into one line feed: the result is not the echoed
  line. A command with an empty line inside is cut at that line.
\<close>

theorem echoed_line_not_returned_counterexample:
  "map_option fst (do ''BatchCommand finished: Failed!''
                      (linux_world [''BatchCommand finished: Failed!\<newline>'', ''\<newline>'']))
     = Some (Inl (PyAudacityException ''BatchCommand finished: Failed!\<newline>''))
   \<and> map_option fst (do ''BatchCommand finished: Failed!''
                      (linux_world [''BatchCommand finished: Failed!\<newline>'', ''\<newline>'']))
     \<noteq> Some (Inr ''BatchCommand finished: Failed!\<newline>'')
   \<and> map_option fst
        (do [CHR ''x'', CHR 0x0D]
           (linux_world (text_lines (universal_newlines
              ([CHR ''x'', CHR 0x0D] @ ''\<newline>'' @ ''\<newline>'')))))
     = Some (Inr ''x\<newline>'')
   \<and> ''x\<newline>'' \<noteq> [CHR ''x'', CHR 0x0D] @ ''\<newline>''
   \<and> map_option fst
        (do ''a\<newline>\<newline>b''
           (linux_world (text_lines (universal_newlines (''a\<newline>\<newline>b'' @ ''\<newline>'' @ ''\<newline>'')))))
     = Some (Inr ''a\<newline>'')"
proof -
  have "stops_at (linux_world [''BatchCommand finished: Failed!\<newline>'', ''\<newline>'']) (Suc 0)"
    by (rule stops_at_linux_world_1) simp
  from do_returns[OF linux_world_paths this, of "''BatchCommand finished: Failed!''"]
  have m: "map_option fst (do ''BatchCommand finished: Failed!''
                      (linux_world [''BatchCommand finished: Failed!\<newline>'', ''\<newline>'']))
     = Some (Inl (PyAudacityException ''BatchCommand finished: Failed!\<newline>''))"
    by (simp add: buffered_linux_world_1 failure_marker_def)
  have "stops_at (linux_world [''x\<newline>'', ''\<newline>'']) (Suc 0)"
    by (rule stops_at_linux_world_1) simp
  from do_returns[OF linux_world_paths this, of "[CHR ''x'', CHR 0x0D]"]
  have x: "map_option fst (do [CHR ''x'', CHR 0x0D] (linux_world [''x\<newline>'', ''\<newline>'']))
     = Some (Inr ''x\<newline>'')"
    by (simp add: buffered_linux_world_1 failure_marker_def)
  have "stops_at (linux_world [''a\<newline>'', ''\<newline>'', ''b\<newline>'', ''\<newline>'']) (Suc 0)"
    by (rule stops_at_linux_world_1) simp
  from do_returns[OF linux_world_paths this, of "''a\<newline>\<newline>b''"]
  have a: "map_option fst (do ''a\<newline>\<newline>b'' (linux_world [''a\<newline>'', ''\<newline>'', ''b\<newline>'', ''\<newline>'']))
     = Some (Inr ''a\<newline>'')"
    by (simp add: buffered_linux_world_1 failure_marker_def)
  have m2: "map_option fst (do ''BatchCommand finished: Failed!''
                      (linux_world [''BatchCommand finished: Failed!\<newline>'', ''\<newline>'']))
     \<noteq> Some (Inr ''BatchCommand finished: Failed!\<newline>'')"
    unfolding m by simp
  have ne: "''x\<newline>'' \<noteq> [CHR ''x'', CHR 0x0D] @ ''\<newline>''"
    by simp
  show ?thesis
    unfolding echo_samples by (intro conjI m m2 x ne a)
qed

text \<open>
  C2, as amended. For every command string \<open>c\<close> that is a single line (it contains
  neither a line feed nor a carriage return) and does not contain the failure marker:
  when the peer echoes \<open>c\<close> followed by its line terminator, a line feed or a carriage
  return and line feed, and then a blank line with the same terminator, \<open>do\<close> returns
  \<open>c\<close> followed by one line feed, which is the echoed line as the text file delivers it.
  The terminating line is consumed (two lines have been read) and is not part of the
  result.
\<close>

theorem do_returns_echoed_line:
  assumes "write_pipe_name w \<in> paths w" and "read_pipe_name w \<in> paths w"
    and "CHR ''\<newline>'' \<notin> set c" and "CHR 0x0D \<notin> set c"
    and "\<not> (\<exists>ps ss. c = ps @ failure_marker @ ss)"
    and "t = ''\<newline>'' \<or> t = [CHR 0x0D, CHR ''\<newline>'']"
    and "delivers w (c @ t @ t)"
  shows "\<exists>w'. do c w = Some (Inr (c @ ''\<newline>''), w') \<and> rpos w' = rpos w + 2"
  by (rule do_returns_line_then_blank[OF assms(1,2) delivers_echo[OF assms(3,4,6,7)] assms(5)])

text \<open>
  The amended C2 at a concrete command, echoed by a peer that ends its lines with
  carriage return and line feed.
\<close>

theorem do_returns_echoed_line_witness:
  "write_pipe_name (linux_world (text_lines (universal_newlines
       (''Select: Track=0'' @ [CHR 0x0D, CHR ''\<newline>''] @ [CHR 0x0D, CHR ''\<newline>'']))))
     \<in> paths (linux_world (text_lines (universal_newlines
       (''Select: Track=0'' @ [CHR 0x0D, CHR ''\<newline>''] @ [CHR 0x0D, CHR ''\<newline>'']))))
   \<and> read_pipe_name (linux_world (text_lines (universal_newlines
       (''Select: Track=0'' @ [CHR 0x0D, CHR ''\<newline>''] @ [CHR 0x0D, CHR ''\<newline>'']))))
     \<in> paths (linux_world (text_lines (universal_newlines
       (''Select: Track=0'' @ [CHR 0x0D, CHR ''\<newline>''] @ [CHR 0x0D, CHR ''\<newline>'']))))
   \<and> CHR ''\<newline>'' \<notin> set ''Select: Track=0''
   \<and> CHR 0x0D \<notin> set ''Select: Track=0''
   \<and> \<not> str_in failure_marker ''Select: Track=0''
   \<and> delivers (linux_world (text_lines (universal_newlines
       (''Select: Track=0'' @ [CHR 0x0D, CHR ''\<newline>''] @ [CHR 0x0D, CHR ''\<newline>'']))))
       (''Select: Track=0'' @ [CHR 0x0D, CHR ''\<newline>''] @ [CHR 0x0D, CHR ''\<newline>''])
   \<and> (\<exists>w'. do ''Select: Track=0'' (linux_world (text_lines (universal_newlines
               (''Select: Track=0'' @ [CHR 0x0D, CHR ''\<newline>''] @ [CHR 0x0D, CHR ''\<newline>'']))))
               = Some (Inr ''Select: Track=0\<newline>'', w')
            \<and> rpos w' = 2)"
proof -
  let ?raw = "''Select: Track=0'' @ [CHR 0x0D, CHR ''\<newline>''] @ [CHR 0x0D, CHR ''\<newline>'']"
  let ?w = "linux_world (text_lines (universal_newlines ?raw))"
  have n: "CHR ''\<newline>'' \<notin> set ''Select: Track=0''" and r: "CHR 0x0D \<notin> set ''Select: Track=0''"
    by simp_all
  have m: "\<not> str_in failure_marker ''Select: Track=0''"
    by (simp add: failure_marker_def)
  then have m': "\<not> (\<exists>ps ss. ''Select: Track=0'' = ps @ failure_marker @ ss)"
    unfolding str_in_iff .
  have t: "[CHR 0x0D, CHR ''\<newline>''] = ''\<newline>'' \<or> [CHR 0x0D, CHR ''\<newline>''] = [CHR 0x0D, CHR ''\<newline>'']"
    by simp
  have dl: "delivers ?w ?raw" by (rule delivers_linux_world)
  have p: "rpos ?w = 0" by (simp add: linux_world_sel)
  from do_returns_echoed_line[OF linux_world_paths n r m' t dl]
  have d: "\<exists>w'. do ''Select: Track=0'' ?w = Some (Inr ''Select: Track=0\<newline>'', w') \<and> rpos w' = 2"
    unfolding p by (simp add: numeral_2_eq_2)
  show ?thesis
    by (intro conjI linux_world_paths n r m dl d)
qed

text \<open>
  C3. Once both pipes exist and the read loop has stopped with the accumulated response
  \<open>buffered w k\<close>: if the response contains the failure marker
  \<open>BatchCommand finished: Failed!\<close> as a substring, \<open>do\<close> raises
  \<open>PyAudacityException\<close> whose payload is the whole response, verbatim; if it does not,
  \<open>do\<close> returns the response unchanged. So \<open>do\<close> raises there if and only if the
  marker is present.
\<close>

theorem do_raises_iff_failure_marker:
  assumes "write_pipe_name w \<in> paths w" and "read_pipe_name w \<in> paths w" and "stops_at w k"
  shows "((\<exists>ps ss. buffered w k = ps @ failure_marker @ ss) \<longrightarrow>
            map_option fst (do c w) = Some (Inl (PyAudacityException (buffered w k))))
       \<and> (\<not> (\<exists>ps ss. buffered w k = ps @ failure_marker @ ss) \<longrightarrow>
            map_option fst (do c w) = Some (Inr (buffered w k)))"
  using do_returns[OF assms, of c] by (simp add: str_in_iff)

text \<open>C3 on a response that contains the failure marker and on one that does not.\<close>

theorem do_raises_iff_failure_marker_witness:
  "write_pipe_name (linux_world [''BatchCommand finished: Failed!\<newline>'', ''\<newline>''])
     \<in> paths (linux_world [''BatchCommand finished: Failed!\<newline>'', ''\<newline>''])
   \<and> read_pipe_name (linux_world [''BatchCommand finished: Failed!\<newline>'', ''\<newline>''])
     \<in> paths (linux_world [''BatchCommand finished: Failed!\<newline>'', ''\<newline>''])
   \<and> stops_at (linux_world [''BatchCommand finished: Failed!\<newline>'', ''\<newline>'']) 1
   \<and> map_option fst (do ''New'' (linux_world [''BatchCommand finished: Failed!\<newline>'', ''\<newline>'']))
       = Some (Inl (PyAudacityException ''BatchCommand finished: Failed!\<newline>''))
   \<and> write_pipe_name (linux_world [''BatchCommand finished: OK\<newline>'', ''\<newline>''])
     \<in> paths (linux_world [''BatchCommand finished: OK\<newline>'', ''\<newline>''])
   \<and> read_pipe_name (linux_world [''BatchCommand finished: OK\<newline>'', ''\<newline>''])
     \<in> paths (linux_world [''BatchCommand finished: OK\<newline>'', ''\<newline>''])
   \<and> stops_at (linux_world [''BatchCommand finished: OK\<newline>'', ''\<newline>'']) 1
   \<and> map_option fst (do ''New'' (linux_world [''BatchCommand finished: OK\<newline>'', ''\<newline>'']))
       = Some (Inr ''BatchCommand finished: OK\<newline>'')"
proof -
  let ?bad = "linux_world [''BatchCommand finished: Failed!\<newline>'', ''\<newline>'']"
  let ?good = "linux_world [''BatchCommand finished: OK\<newline>'', ''\<newline>'']"
  have sb: "stops_at ?bad 1" and sg: "stops_at ?good 1"
    by (simp_all add: stops_at_linux_world_1)
  have mb: "\<exists>ps ss. ''BatchCommand finished: Failed!\<newline>'' = ps @ failure_marker @ ss"
    unfolding str_in_iff[symmetric] by (simp add: failure_marker_def)
  have mg: "\<not> (\<exists>ps ss. ''BatchCommand finished: OK\<newline>'' = ps @ failure_marker @ ss)"
    unfolding str_in_iff[symmetric] by (simp add: failure_marker_def)
  show ?thesis
    using do_raises_iff_failure_marker[OF linux_world_paths sb, of "''New''"]
      do_raises_iff_failure_marker[OF linux_world_paths sg, of "''New''"]
      mb mg sb sg linux_world_paths
    by (simp add: buffered_linux_world_1)
qed

text \<open>
  C4. If the outbound pipe path does not exist, \<open>do\<close> raises after the one existence
  check: the world differs from the initial one by that log entry alone, so nothing was
  opened and nothing written. If the outbound path exists and the inbound path does not,
  \<open>do\<close> raises the same exception class after the two existence checks and the sleep
  between them: again nothing was opened, written or read.
\<close>

theorem do_missing_endpoint_raises_before_io:
  "(write_pipe_name w \<notin> paths w \<longrightarrow>
      do c w = Some (Inl (PyAudacityException (write_pipe_name w @ does_not_exist)),
                     w\<lparr>trace := trace w @ [Exists (write_pipe_name w)]\<rparr>))
   \<and> (write_pipe_name w \<in> paths w \<and> read_pipe_name w \<notin> paths w \<longrightarrow>
      do c w = Some (Inl (PyAudacityException (read_pipe_name w @ does_not_exist)),
                     w\<lparr>trace := trace w @ [Exists (write_pipe_name w), Sleep,
                                             Exists (read_pipe_name w)]\<rparr>))"
  using do_missing_write[of w c] do_missing_read[of w c] by blast

text \<open>C4 on a host where neither pipe exists and on one where only the outbound pipe exists.\<close>

theorem do_missing_endpoint_raises_before_io_witness:
  "write_pipe_name ((linux_world [])\<lparr>paths := {}\<rparr>) \<notin> paths ((linux_world [])\<lparr>paths := {}\<rparr>)
   \<and> do ''New'' ((linux_world [])\<lparr>paths := {}\<rparr>) =
       Some (Inl (PyAudacityException (''/tmp/audacity_script_pipe.to.1000'' @ does_not_exist)),
             (linux_world [])\<lparr>paths := {}, trace := [Exists ''/tmp/audacity_script_pipe.to.1000'']\<rparr>)
   \<and> write_pipe_name ((linux_world [])\<lparr>paths := {''/tmp/audacity_script_pipe.to.1000''}\<rparr>)
        \<in> paths ((linux_world [])\<lparr>paths := {''/tmp/audacity_script_pipe.to.1000''}\<rparr>)
   \<and> read_pipe_name ((linux_world [])\<lparr>paths := {''/tmp/audacity_script_pipe.to.1000''}\<rparr>)
        \<notin> paths ((linux_world [])\<lparr>paths := {''/tmp/audacity_script_pipe.to.1000''}\<rparr>)
   \<and> do ''New'' ((linux_world [])\<lparr>paths := {''/tmp/audacity_script_pipe.to.1000''}\<rparr>) =
       Some (Inl (PyAudacityException (''/tmp/audacity_script_pipe.from.1000'' @ does_not_exist)),
             (linux_world [])\<lparr>paths := {''/tmp/audacity_script_pipe.to.1000''},
                               trace := [Exists ''/tmp/audacity_script_pipe.to.1000'', Sleep,
                                         Exists ''/tmp/audacity_script_pipe.from.1000'']\<rparr>)"
proof -
  have n1: "write_pipe_name ((linux_world [])\<lparr>paths := {}\<rparr>) = ''/tmp/audacity_script_pipe.to.1000''"
    using names_frame[of "(linux_world [])\<lparr>paths := {}\<rparr>" "linux_world []"]
    by (simp add: linux_world_names)
  have n2: "write_pipe_name ((linux_world [])\<lparr>paths := {''/tmp/audacity_script_pipe.to.1000''}\<rparr>) = ''/tmp/audacity_script_pipe.to.1000''"
     "read_pipe_name ((linux_world [])\<lparr>paths := {''/tmp/audacity_script_pipe.to.1000''}\<rparr>) = ''/tmp/audacity_script_pipe.from.1000''"
    using names_frame[of "(linux_world [])\<lparr>paths := {''/tmp/audacity_script_pipe.to.1000''}\<rparr>" "linux_world []"]
    by (simp_all add: linux_world_names)
  have t: "trace (linux_world []) = []" by (simp add: linux_world_def)
  show ?thesis
    using do_missing_endpoint_raises_before_io[of "(linux_world [])\<lparr>paths := {}\<rparr>" "''New''"]
      do_missing_endpoint_raises_before_io[of "(linux_world [])\<lparr>paths := {''/tmp/audacity_script_pipe.to.1000''}\<rparr>" "''New''"]
    by (simp add: n1 n2 t)
qed

text \<open>
  C5. On every platform other than \<open>win32\<close> the two endpoints are
  \<open>/tmp/audacity_script_pipe.to.\<close> and \<open>/tmp/audacity_script_pipe.from.\<close> followed by
  the decimal user id, and the one write of the call sends the command followed by a
  single line feed. On \<open>win32\<close> the endpoints are the fixed names
  \<open>\\.\pipe\ToSrvPipe\<close> and \<open>\\.\pipe\FromSrvPipe\<close>, and the write sends the command
  followed by carriage return, line feed and NUL. The log of a complete exchange shows
  the names checked, opened, read and closed, and the data written.
\<close>

theorem do_frames_command_by_platform:
  "(platform w \<noteq> ''win32''
      \<and> ''/tmp/audacity_script_pipe.to.'' @ str_nat (uid w) \<in> paths w
      \<and> ''/tmp/audacity_script_pipe.from.'' @ str_nat (uid w) \<in> paths w
      \<and> stops_at w k \<longrightarrow>
      (\<exists>r w'. do c w = Some (r, w') \<and>
         trace w' = trace w @
           [Exists (''/tmp/audacity_script_pipe.to.'' @ str_nat (uid w)), Sleep,
            Exists (''/tmp/audacity_script_pipe.from.'' @ str_nat (uid w)), Sleep,
            Open (''/tmp/audacity_script_pipe.to.'' @ str_nat (uid w)) WriteMode,
            Open (''/tmp/audacity_script_pipe.from.'' @ str_nat (uid w)) ReadMode,
            Write (''/tmp/audacity_script_pipe.to.'' @ str_nat (uid w)) (c @ ''\<newline>''),
            Flush (''/tmp/audacity_script_pipe.to.'' @ str_nat (uid w))]
           @ replicate (Suc k - rpos w) (Readline (''/tmp/audacity_script_pipe.from.'' @ str_nat (uid w)))
           @ [Close (''/tmp/audacity_script_pipe.to.'' @ str_nat (uid w)), Sleep,
              Close (''/tmp/audacity_script_pipe.from.'' @ str_nat (uid w))]))
   \<and> (platform w = ''win32''
      \<and> [CHR 0x5C, CHR 0x5C] @ ''.'' @ [CHR 0x5C] @ ''pipe'' @ [CHR 0x5C] @ ''ToSrvPipe'' \<in> paths w
      \<and> [CHR 0x5C, CHR 0x5C] @ ''.'' @ [CHR 0x5C] @ ''pipe'' @ [CHR 0x5C] @ ''FromSrvPipe'' \<in> paths w
      \<and> stops_at w k \<longrightarrow>
      (\<exists>r w'. do c w = Some (r, w') \<and>
         trace w' = trace w @
           [Exists ([CHR 0x5C, CHR 0x5C] @ ''.'' @ [CHR 0x5C] @ ''pipe'' @ [CHR 0x5C] @ ''ToSrvPipe''), Sleep,
            Exists ([CHR 0x5C, CHR 0x5C] @ ''.'' @ [CHR 0x5C] @ ''pipe'' @ [CHR 0x5C] @ ''FromSrvPipe''), Sleep,
            Open ([CHR 0x5C, CHR 0x5C] @ ''.'' @ [CHR 0x5C] @ ''pipe'' @ [CHR 0x5C] @ ''ToSrvPipe'') WriteMode,
            Open ([CHR 0x5C, CHR 0x5C] @ ''.'' @ [CHR 0x5C] @ ''pipe'' @ [CHR 0x5C] @ ''FromSrvPipe'') ReadMode,
            Write ([CHR 0x5C, CHR 0x5C] @ ''.'' @ [CHR 0x5C] @ ''pipe'' @ [CHR 0x5C] @ ''ToSrvPipe'')
                  (c @ [CHR 0x0D, CHR 0x0A, CHR 0x00]),
            Flush ([CHR 0x5C, CHR 0x5C] @ ''.'' @ [CHR 0x5C] @ ''pipe'' @ [CHR 0x5C] @ ''ToSrvPipe'')]
           @ replicate (Suc k - rpos w)
               (Readline ([CHR 0x5C, CHR 0x5C] @ ''.'' @ [CHR 0x5C] @ ''pipe'' @ [CHR 0x5C] @ ''FromSrvPipe''))
           @ [Close ([CHR 0x5C, CHR 0x5C] @ ''.'' @ [CHR 0x5C] @ ''pipe'' @ [CHR 0x5C] @ ''ToSrvPipe''), Sleep,
              Close ([CHR 0x5C, CHR 0x5C] @ ''.'' @ [CHR 0x5C] @ ''pipe'' @ [CHR 0x5C] @ ''FromSrvPipe'')]))"
proof (intro conjI impI)
  assume a: "platform w \<noteq> ''win32''
      \<and> ''/tmp/audacity_script_pipe.to.'' @ str_nat (uid w) \<in> paths w
      \<and> ''/tmp/audacity_script_pipe.from.'' @ str_nat (uid w) \<in> paths w
      \<and> stops_at w k"
  then have n: "write_pipe_name w = ''/tmp/audacity_script_pipe.to.'' @ str_nat (uid w)"
    "read_pipe_name w = ''/tmp/audacity_script_pipe.from.'' @ str_nat (uid w)"
    "eol w = ''\<newline>''"
    by (simp_all add: write_pipe_name_def read_pipe_name_def eol_def)
  have "write_pipe_name w \<in> paths w" "read_pipe_name w \<in> paths w" "stops_at w k"
    using a by (simp_all only: n)
  from do_exchange[OF this, of c] obtain r w' where
    "do c w = Some (r, w')" "trace w' = trace w @ exchange_events w c (Suc k - rpos w)"
    by blast
  then show "\<exists>r w'. do c w = Some (r, w') \<and>
         trace w' = trace w @
           [Exists (''/tmp/audacity_script_pipe.to.'' @ str_nat (uid w)), Sleep,
            Exists (''/tmp/audacity_script_pipe.from.'' @ str_nat (uid w)), Sleep,
            Open (''/tmp/audacity_script_pipe.to.'' @ str_nat (uid w)) WriteMode,
            Open (''/tmp/audacity_script_pipe.from.'' @ str_nat (uid w)) ReadMode,
            Write (''/tmp/audacity_script_pipe.to.'' @ str_nat (uid w)) (c @ ''\<newline>''),
            Flush (''/tmp/audacity_script_pipe.to.'' @ str_nat (uid w))]
           @ replicate (Suc k - rpos w) (Readline (''/tmp/audacity_script_pipe.from.'' @ str_nat (uid w)))
           @ [Close (''/tmp/audacity_script_pipe.to.'' @ str_nat (uid w)), Sleep,
              Close (''/tmp/audacity_script_pipe.from.'' @ str_nat (uid w))]"
    by (simp add: exchange_events_def n)
next
  assume a: "platform w = ''win32''
      \<and> [CHR 0x5C, CHR 0x5C] @ ''.'' @ [CHR 0x5C] @ ''pipe'' @ [CHR 0x5C] @ ''ToSrvPipe'' \<in> paths w
      \<and> [CHR 0x5C, CHR 0x5C] @ ''.'' @ [CHR 0x5C] @ ''pipe'' @ [CHR 0x5C] @ ''FromSrvPipe'' \<in> paths w
      \<and> stops_at w k"
  then have n: "write_pipe_name w = [CHR 0x5C, CHR 0x5C] @ ''.'' @ [CHR 0x5C] @ ''pipe'' @ [CHR 0x5C] @ ''ToSrvPipe''"
    "read_pipe_name w = [CHR 0x5C, CHR 0x5C] @ ''.'' @ [CHR 0x5C] @ ''pipe'' @ [CHR 0x5C] @ ''FromSrvPipe''"
    "eol w = [CHR 0x0D, CHR 0x0A, CHR 0x00]"
    by (simp_all add: write_pipe_name_def read_pipe_name_def eol_def win_write_pipe_name_def
        win_read_pipe_name_def win_eol_def backslash_def)
  have "write_pipe_name w \<in> paths w" "read_pipe_name w \<in> paths w" "stops_at w k"
    using a by (simp_all only: n)
  from do_exchange[OF this, of c] obtain r w' where
    "do c w = Some (r, w')" "trace w' = trace w @ exchange_events w c (Suc k - rpos w)"
    by blast
  then show "\<exists>r w'. do c w = Some (r, w') \<and>
         trace w' = trace w @
           [Exists ([CHR 0x5C, CHR 0x5C] @ ''.'' @ [CHR 0x5C] @ ''pipe'' @ [CHR 0x5C] @ ''ToSrvPipe''), Sleep,
            Exists ([CHR 0x5C, CHR 0x5C] @ ''.'' @ [CHR 0x5C] @ ''pipe'' @ [CHR 0x5C] @ ''FromSrvPipe''), Sleep,
            Open ([CHR 0x5C, CHR 0x5C] @ ''.'' @ [CHR 0x5C] @ ''pipe'' @ [CHR 0x5C] @ ''ToSrvPipe'') WriteMode,
            Open ([CHR 0x5C, CHR 0x5C] @ ''.'' @ [CHR 0x5C] @ ''pipe'' @ [CHR 0x5C] @ ''FromSrvPipe'') ReadMode,
            Write ([CHR 0x5C, CHR 0x5C] @ ''.'' @ [CHR 0x5C] @ ''pipe'' @ [CHR 0x5C] @ ''ToSrvPipe'')
                  (c @ [CHR 0x0D, CHR 0x0A, CHR 0x00]),
            Flush ([CHR 0x5C, CHR 0x5C] @ ''.'' @ [CHR 0x5C] @ ''pipe'' @ [CHR 0x5C] @ ''ToSrvPipe'')]
           @ replicate (Suc k - rpos w)
               (Readline ([CHR 0x5C, CHR 0x5C] @ ''.'' @ [CHR 0x5C] @ ''pipe'' @ [CHR 0x5C] @ ''FromSrvPipe''))
           @ [Close ([CHR 0x5C, CHR 0x5C] @ ''.'' @ [CHR 0x5C] @ ''pipe'' @ [CHR 0x5C] @ ''ToSrvPipe''), Sleep,
              Close ([CHR 0x5C, CHR 0x5C] @ ''.'' @ [CHR 0x5C] @ ''pipe'' @ [CHR 0x5C] @ ''FromSrvPipe'')]"
    by (simp add: exchange_events_def n)
qed

text \<open>C5 on a Linux host with user id 1000 and on a Windows host.\<close>

theorem do_frames_command_by_platform_witness:
  "platform (linux_world [''ok\<newline>'', ''\<newline>'']) \<noteq> ''win32''
   \<and> ''/tmp/audacity_script_pipe.to.'' @ str_nat (uid (linux_world [''ok\<newline>'', ''\<newline>'']))
        \<in> paths (linux_world [''ok\<newline>'', ''\<newline>''])
   \<and> ''/tmp/audacity_script_pipe.from.'' @ str_nat (uid (linux_world [''ok\<newline>'', ''\<newline>'']))
        \<in> paths (linux_world [''ok\<newline>'', ''\<newline>''])
   \<and> stops_at (linux_world [''ok\<newline>'', ''\<newline>'']) 1
   \<and> (\<exists>r w'. do ''New'' (linux_world [''ok\<newline>'', ''\<newline>'']) = Some (r, w') \<and>
         trace w' =
           [Exists ''/tmp/audacity_script_pipe.to.1000'', Sleep,
            Exists ''/tmp/audacity_script_pipe.from.1000'', Sleep,
            Open ''/tmp/audacity_script_pipe.to.1000'' WriteMode,
            Open ''/tmp/audacity_script_pipe.from.1000'' ReadMode,
            Write ''/tmp/audacity_script_pipe.to.1000'' ''New\<newline>'',
            Flush ''/tmp/audacity_script_pipe.to.1000'',
            Readline ''/tmp/audacity_script_pipe.from.1000'',
            Readline ''/tmp/audacity_script_pipe.from.1000'',
            Close ''/tmp/audacity_script_pipe.to.1000'', Sleep,
            Close ''/tmp/audacity_script_pipe.from.1000''])
   \<and> platform (windows_world [''ok\<newline>'', ''\<newline>'']) = ''win32''
   \<and> [CHR 0x5C, CHR 0x5C] @ ''.'' @ [CHR 0x5C] @ ''pipe'' @ [CHR 0x5C] @ ''ToSrvPipe''
        \<in> paths (windows_world [''ok\<newline>'', ''\<newline>''])
   \<and> [CHR 0x5C, CHR 0x5C] @ ''.'' @ [CHR 0x5C] @ ''pipe'' @ [CHR 0x5C] @ ''FromSrvPipe''
        \<in> paths (windows_world [''ok\<newline>'', ''\<newline>''])
   \<and> stops_at (windows_world [''ok\<newline>'', ''\<newline>'']) 1
   \<and> (\<exists>r w'. do ''New'' (windows_world [''ok\<newline>'', ''\<newline>'']) = Some (r, w') \<and>
         trace w' =
           [Exists [CHR 0x5C, CHR 0x5C, CHR ''.'', CHR 0x5C, CHR ''p'', CHR ''i'', CHR ''p'', CHR ''e'', CHR 0x5C,
                    CHR ''T'', CHR ''o'', CHR ''S'', CHR ''r'', CHR ''v'', CHR ''P'', CHR ''i'', CHR ''p'', CHR ''e''],
            Sleep,
            Exists [CHR 0x5C, CHR 0x5C, CHR ''.'', CHR 0x5C, CHR ''p'', CHR ''i'', CHR ''p'', CHR ''e'', CHR 0x5C,
                    CHR ''F'', CHR ''r'', CHR ''o'', CHR ''m'', CHR ''S'', CHR ''r'', CHR ''v'', CHR ''P'', CHR ''i'', CHR ''p'', CHR ''e''],
            Sleep,
            Open [CHR 0x5C, CHR 0x5C, CHR ''.'', CHR 0x5C, CHR ''p'', CHR ''i'', CHR ''p'', CHR ''e'', CHR 0x5C,
                    CHR ''T'', CHR ''o'', CHR ''S'', CHR ''r'', CHR ''v'', CHR ''P'', CHR ''i'', CHR ''p'', CHR ''e'']
                 WriteMode,
            Open [CHR 0x5C, CHR 0x5C, CHR ''.'', CHR 0x5C, CHR ''p'', CHR ''i'', CHR ''p'', CHR ''e'', CHR 0x5C,
                    CHR ''F'', CHR ''r'', CHR ''o'', CHR ''m'', CHR ''S'', CHR ''r'', CHR ''v'', CHR ''P'', CHR ''i'', CHR ''p'', CHR ''e'']
                 ReadMode,
            Write [CHR 0x5C, CHR 0x5C, CHR ''.'', CHR 0x5C, CHR ''p'', CHR ''i'', CHR ''p'', CHR ''e'', CHR 0x5C,
                    CHR ''T'', CHR ''o'', CHR ''S'', CHR ''r'', CHR ''v'', CHR ''P'', CHR ''i'', CHR ''p'', CHR ''e'']
                  [CHR ''N'', CHR ''e'', CHR ''w'', CHR 0x0D, CHR 0x0A, CHR 0x00],
            Flush [CHR 0x5C, CHR 0x5C, CHR ''.'', CHR 0x5C, CHR ''p'', CHR ''i'', CHR ''p'', CHR ''e'', CHR 0x5C,
                    CHR ''T'', CHR ''o'', CHR ''S'', CHR ''r'', CHR ''v'', CHR ''P'', CHR ''i'', CHR ''p'', CHR ''e''],
            Readline [CHR 0x5C, CHR 0x5C, CHR ''.'', CHR 0x5C, CHR ''p'', CHR ''i'', CHR ''p'', CHR ''e'', CHR 0x5C,
                    CHR ''F'', CHR ''r'', CHR ''o'', CHR ''m'', CHR ''S'', CHR ''r'', CHR ''v'', CHR ''P'', CHR ''i'', CHR ''p'', CHR ''e''],
            Readline [CHR 0x5C, CHR 0x5C, CHR ''.'', CHR 0x5C, CHR ''p'', CHR ''i'', CHR ''p'', CHR ''e'', CHR 0x5C,
                    CHR ''F'', CHR ''r'', CHR ''o'', CHR ''m'', CHR ''S'', CHR ''r'', CHR ''v'', CHR ''P'', CHR ''i'', CHR ''p'', CHR ''e''],
            Close [CHR 0x5C, CHR 0x5C, CHR ''.'', CHR 0x5C, CHR ''p'', CHR ''i'', CHR ''p'', CHR ''e'', CHR 0x5C,
                    CHR ''T'', CHR ''o'', CHR ''S'', CHR ''r'', CHR ''v'', CHR ''P'', CHR ''i'', CHR ''p'', CHR ''e''],
            Sleep,
            Close [CHR 0x5C, CHR 0x5C, CHR ''.'', CHR 0x5C, CHR ''p'', CHR ''i'', CHR ''p'', CHR ''e'', CHR 0x5C,
                    CHR ''F'', CHR ''r'', CHR ''o'', CHR ''m'', CHR ''S'', CHR ''r'', CHR ''v'', CHR ''P'', CHR ''i'', CHR ''p'', CHR ''e'']])"
proof -
  let ?l = "linux_world [''ok\<newline>'', ''\<newline>'']"
  let ?v = "windows_world [''ok\<newline>'', ''\<newline>'']"
  have sl: "stops_at ?l (Suc 0)"
    by (rule stops_at_peer_sends_1(1)[of _ "''ok\<newline>''" "[]"]) (simp_all add: linux_world_sel)
  have sv: "stops_at ?v (Suc 0)"
    by (rule stops_at_peer_sends_1(1)[of _ "''ok\<newline>''" "[]"]) (simp_all add: windows_world_sel)
  have hl: "platform ?l \<noteq> ''win32''
      \<and> ''/tmp/audacity_script_pipe.to.'' @ str_nat (uid ?l) \<in> paths ?l
      \<and> ''/tmp/audacity_script_pipe.from.'' @ str_nat (uid ?l) \<in> paths ?l
      \<and> stops_at ?l (Suc 0)"
    using sl by (simp add: linux_world_sel str_nat_1000) (simp add: linux_world_def)
  have hv: "platform ?v = ''win32''
      \<and> [CHR 0x5C, CHR 0x5C] @ ''.'' @ [CHR 0x5C] @ ''pipe'' @ [CHR 0x5C] @ ''ToSrvPipe'' \<in> paths ?v
      \<and> [CHR 0x5C, CHR 0x5C] @ ''.'' @ [CHR 0x5C] @ ''pipe'' @ [CHR 0x5C] @ ''FromSrvPipe'' \<in> paths ?v
      \<and> stops_at ?v (Suc 0)"
    using sv by (simp add: windows_world_sel win_write_pipe_name_def win_read_pipe_name_def backslash_def)
  note cl = do_frames_command_by_platform[THEN conjunct1, rule_format, OF hl, of "''New''"]
  note cv = do_frames_command_by_platform[THEN conjunct2, rule_format, OF hv, of "''New''"]
  have one: "(1::nat) = Suc 0" by simp
  show ?thesis
    unfolding one
    apply (intro conjI)
    using hl apply blast
    using hl apply blast
    using hl apply blast
    using hl apply blast
    using cl apply (simp add: linux_world_sel str_nat_1000)
    using hv apply blast
    using hv apply blast
    using hv apply blast
    using hv apply blast
    using cv apply (simp add: windows_world_sel)
    done
qed

text \<open>
  C6. Every call of \<open>do\<close> that gets past the two existence checks and whose read loop
  ends performs one exchange: both pipes are opened in the call, the command is written
  once and flushed, lines are read up to and including the terminating one, the write
  pipe is closed, then the read pipe. The set of open files is then what it was before
  the call. This holds on the path that returns the response and on the path that raises
  because of the failure marker alike: the value handed back is decided from the
  response after the closes.
\<close>

theorem do_one_exchange_closed_before_result:
  assumes "write_pipe_name w \<in> paths w" and "read_pipe_name w \<in> paths w" and "stops_at w k"
  shows "\<exists>w'. do c w = Some (if str_in failure_marker (buffered w k)
                             then Inl (PyAudacityException (buffered w k))
                             else Inr (buffered w k), w')
           \<and> trace w' = trace w @
                [Exists (write_pipe_name w), Sleep, Exists (read_pipe_name w), Sleep,
                 Open (write_pipe_name w) WriteMode, Open (read_pipe_name w) ReadMode,
                 Write (write_pipe_name w) (c @ eol w), Flush (write_pipe_name w)]
                @ replicate (Suc k - rpos w) (Readline (read_pipe_name w))
                @ [Close (write_pipe_name w), Sleep, Close (read_pipe_name w)]
           \<and> open_files w' = open_files w"
  using do_returns[OF assms, of c] by (simp add: exchange_events_def)

text \<open>C6 on the raising path and on the returning path.\<close>

theorem do_one_exchange_closed_before_result_witness:
  "write_pipe_name (linux_world [''BatchCommand finished: Failed!\<newline>'', ''\<newline>''])
     \<in> paths (linux_world [''BatchCommand finished: Failed!\<newline>'', ''\<newline>''])
   \<and> read_pipe_name (linux_world [''BatchCommand finished: Failed!\<newline>'', ''\<newline>''])
     \<in> paths (linux_world [''BatchCommand finished: Failed!\<newline>'', ''\<newline>''])
   \<and> stops_at (linux_world [''BatchCommand finished: Failed!\<newline>'', ''\<newline>'']) 1
   \<and> (\<exists>w'. do ''New'' (linux_world [''BatchCommand finished: Failed!\<newline>'', ''\<newline>''])
              = Some (Inl (PyAudacityException ''BatchCommand finished: Failed!\<newline>''), w')
         \<and> trace w' =
           [Exists ''/tmp/audacity_script_pipe.to.1000'', Sleep,
            Exists ''/tmp/audacity_script_pipe.from.1000'', Sleep,
            Open ''/tmp/audacity_script_pipe.to.1000'' WriteMode,
            Open ''/tmp/audacity_script_pipe.from.1000'' ReadMode,
            Write ''/tmp/audacity_script_pipe.to.1000'' ''New\<newline>'',
            Flush ''/tmp/audacity_script_pipe.to.1000'',
            Readline ''/tmp/audacity_script_pipe.from.1000'',
            Readline ''/tmp/audacity_script_pipe.from.1000'',
            Close ''/tmp/audacity_script_pipe.to.1000'', Sleep,
            Close ''/tmp/audacity_script_pipe.from.1000'']
         \<and> open_files w' = [])
   \<and> write_pipe_name (linux_world [''ok\<newline>'', ''\<newline>''])
     \<in> paths (linux_world [''ok\<newline>'', ''\<newline>''])
   \<and> read_pipe_name (linux_world [''ok\<newline>'', ''\<newline>''])
     \<in> paths (linux_world [''ok\<newline>'', ''\<newline>''])
   \<and> stops_at (linux_world [''ok\<newline>'', ''\<newline>'']) 1
   \<and> (\<exists>w'. do ''New'' (linux_world [''ok\<newline>'', ''\<newline>'']) = Some (Inr ''ok\<newline>'', w')
         \<and> trace w' =
           [Exists ''/tmp/audacity_script_pipe.to.1000'', Sleep,
            Exists ''/tmp/audacity_script_pipe.from.1000'', Sleep,
            Open ''/tmp/audacity_script_pipe.to.1000'' WriteMode,
            Open ''/tmp/audacity_script_pipe.from.1000'' ReadMode,
            Write ''/tmp/audacity_script_pipe.to.1000'' ''New\<newline>'',
            Flush ''/tmp/audacity_script_pipe.to.1000'',
            Readline ''/tmp/audacity_script_pipe.from.1000'',
            Readline ''/tmp/audacity_script_pipe.from.1000'',
            Close ''/tmp/audacity_script_pipe.to.1000'', Sleep,
            Close ''/tmp/audacity_script_pipe.from.1000'']
         \<and> open_files w' = [])"
proof -
  let ?b = "linux_world [''BatchCommand finished: Failed!\<newline>'', ''\<newline>'']"
  let ?g = "linux_world [''ok\<newline>'', ''\<newline>'']"
  have sb: "stops_at ?b (Suc 0)" and sg: "stops_at ?g (Suc 0)"
    by (rule stops_at_linux_world_1, simp)+
  note cb = do_one_exchange_closed_before_result[OF linux_world_paths sb, of "''New''"]
  note cg = do_one_exchange_closed_before_result[OF linux_world_paths sg, of "''New''"]
  have one: "(1::nat) = Suc 0" by simp
  show ?thesis
    unfolding one
    apply (intro conjI linux_world_paths sb sg)
    using cb apply (simp add: buffered_linux_world_1 linux_world_names linux_world_sel failure_marker_def)
    using cg apply (simp add: buffered_linux_world_1 linux_world_names linux_world_sel failure_marker_def)
    done
qed

text \<open>
  C7. The read loop has one exit only. It never returns if and only if the peer never
  delivers a lone line feed at a moment when at least one character has been buffered;
  this covers the peer that closes its end, after which every \<open>readline\<close> returns the
  empty string. It returns if and only if such a line is eventually delivered. With both
  pipes present the same holds of \<open>do\<close> as a whole: nothing else bounds the wait.
\<close>

theorem read_hangs_iff_no_blank_line_after_content:
  "(read_loop f [] [] w = None \<longleftrightarrow>
      \<not> (\<exists>k\<ge>rpos w. inbound w k = ''\<newline>'' \<and> buffered w k \<noteq> []))
   \<and> ((\<exists>y. read_loop f [] [] w = Some y) \<longleftrightarrow>
      (\<exists>k\<ge>rpos w. inbound w k = ''\<newline>'' \<and> buffered w k \<noteq> []))
   \<and> (write_pipe_name w \<in> paths w \<and> read_pipe_name w \<in> paths w \<longrightarrow>
        (do c w = None \<longleftrightarrow>
           \<not> (\<exists>k\<ge>rpos w. inbound w k = ''\<newline>'' \<and> buffered w k \<noteq> []))
      \<and> ((\<exists>y. do c w = Some y) \<longleftrightarrow>
           (\<exists>k\<ge>rpos w. inbound w k = ''\<newline>'' \<and> buffered w k \<noteq> [])))"
proof (intro conjI impI)
  show a: "read_loop f [] [] w = None \<longleftrightarrow>
      \<not> (\<exists>k\<ge>rpos w. inbound w k = ''\<newline>'' \<and> buffered w k \<noteq> [])"
    by (simp only: read_loop_None_iff blank_line_iff)
  show "(\<exists>y. read_loop f [] [] w = Some y) \<longleftrightarrow>
      (\<exists>k\<ge>rpos w. inbound w k = ''\<newline>'' \<and> buffered w k \<noteq> [])"
    by (simp only: not_None_iff a not_not)
next
  assume p: "write_pipe_name w \<in> paths w \<and> read_pipe_name w \<in> paths w"
  show b: "do c w = None \<longleftrightarrow>
      \<not> (\<exists>k\<ge>rpos w. inbound w k = ''\<newline>'' \<and> buffered w k \<noteq> [])"
    using p by (simp only: do_None_iff blank_line_iff)
  show "(\<exists>y. do c w = Some y) \<longleftrightarrow>
      (\<exists>k\<ge>rpos w. inbound w k = ''\<newline>'' \<and> buffered w k \<noteq> [])"
    by (simp only: not_None_iff b not_not)
qed

text \<open>C7 for a peer that sends one line and closes its end, and for a peer that sends a line and then the terminating line.\<close>

theorem read_hangs_iff_no_blank_line_after_content_witness:
  "write_pipe_name (linux_world [''line1\<newline>'']) \<in> paths (linux_world [''line1\<newline>''])
   \<and> read_pipe_name (linux_world [''line1\<newline>'']) \<in> paths (linux_world [''line1\<newline>''])
   \<and> do ''New'' (linux_world [''line1\<newline>'']) = None
   \<and> inbound (linux_world [''line1\<newline>'', ''\<newline>'']) 1 = ''\<newline>''
   \<and> buffered (linux_world [''line1\<newline>'', ''\<newline>'']) 1 \<noteq> []
   \<and> do ''New'' (linux_world [''line1\<newline>'', ''\<newline>'']) \<noteq> None"
proof -
  have i: "inbound (linux_world [''line1\<newline>'', ''\<newline>'']) (Suc 0) = ''\<newline>''"
       "rpos (linux_world [''line1\<newline>'', ''\<newline>'']) \<le> Suc 0"
    by (simp_all add: linux_world_def peer_sends_def)
  have e: "\<exists>k\<ge>rpos (linux_world [''line1\<newline>'', ''\<newline>'']).
        inbound (linux_world [''line1\<newline>'', ''\<newline>'']) k = ''\<newline>''
        \<and> buffered (linux_world [''line1\<newline>'', ''\<newline>'']) k \<noteq> []"
    using i by (intro exI[of _ "Suc 0"]) (simp add: buffered_linux_world_1)
  note T = read_hangs_iff_no_blank_line_after_content
             [THEN conjunct2, THEN conjunct2, THEN mp, OF conjI[OF linux_world_paths]]
  have h: "do ''New'' (linux_world [''line1\<newline>'']) = None"
    using T[THEN conjunct1, THEN iffD2, OF no_blank_line_sample] .
  have "\<exists>y. do ''New'' (linux_world [''line1\<newline>'', ''\<newline>'']) = Some y"
    using T[THEN conjunct2, THEN iffD2, OF e] .
  then have t: "do ''New'' (linux_world [''line1\<newline>'', ''\<newline>'']) \<noteq> None"
    by (elim exE) simp
  have b: "buffered (linux_world [''line1\<newline>'', ''\<newline>'']) 1 \<noteq> []"
    by (simp add: buffered_linux_world_1)
  have i1: "inbound (linux_world [''line1\<newline>'', ''\<newline>'']) 1 = ''\<newline>''"
    using i by simp
  show ?thesis
    by (intro conjI linux_world_paths h t b i1)
qed

text \<open>
  C8. A call of \<open>do\<close> that returns or raises leaves the platform, the user id, the
  paths, the peer's line sequence and the set of open files as they were: only the log
  and the number of lines consumed have moved. A second call started where the first
  ended shows exactly what the same call shows in any world that offers the same
  environment, whatever that world's log, open files or read position, so also in one
  where the first call never took place. When both pipes exist, the first call has
  performed one complete exchange, and for every line sequence on which the second read
  loop ends the second call performs another complete exchange and again leaves no file
  open.
\<close>

theorem do_twice_no_state_carried:
  assumes "do c w = Some (r1, w1)"
  shows "platform w1 = platform w \<and> uid w1 = uid w \<and> paths w1 = paths w
       \<and> inbound w1 = inbound w \<and> open_files w1 = open_files w
       \<and> (\<forall>v. same_environment v w1 \<longrightarrow> observed v (do c v) = observed w1 (do c w1))
       \<and> (write_pipe_name w \<in> paths w \<and> read_pipe_name w \<in> paths w \<longrightarrow>
            trace w1 = trace w @ exchange_events w c (rpos w1 - rpos w)
            \<and> (\<forall>k. stops_at w1 k \<longrightarrow>
                 (\<exists>r2 w2. do c w1 = Some (r2, w2)
                    \<and> trace w2 = trace w @ exchange_events w c (rpos w1 - rpos w)
                                          @ exchange_events w c (rpos w2 - rpos w1)
                    \<and> open_files w2 = open_files w)))"
proof -
  note f = do_frame[OF assms]
  have names: "write_pipe_name w1 = write_pipe_name w" "read_pipe_name w1 = read_pipe_name w"
    "eol w1 = eol w"
    using f names_frame[of w1 w] by simp_all
  have ev: "\<And>n. exchange_events w1 c n = exchange_events w c n"
    by (simp add: exchange_events_def names)
  have third: "trace w1 = trace w @ exchange_events w c (rpos w1 - rpos w)
            \<and> (\<forall>k. stops_at w1 k \<longrightarrow>
                 (\<exists>r2 w2. do c w1 = Some (r2, w2)
                    \<and> trace w2 = trace w @ exchange_events w c (rpos w1 - rpos w)
                                          @ exchange_events w c (rpos w2 - rpos w1)
                    \<and> open_files w2 = open_files w))"
    if wp: "write_pipe_name w \<in> paths w" and rp: "read_pipe_name w \<in> paths w"
  proof (intro conjI allI impI)
    from assms obtain k1 where "stops_at w k1"
      and w1: "w1 = w\<lparr>rpos := Suc k1, trace := trace w @ exchange_events w c (Suc k1 - rpos w)\<rparr>"
      unfolding do_Some_iff[OF wp rp] by blast
    show t1: "trace w1 = trace w @ exchange_events w c (rpos w1 - rpos w)"
      unfolding w1 by simp
    fix k assume k: "stops_at w1 k"
    have wp1: "write_pipe_name w1 \<in> paths w1" and rp1: "read_pipe_name w1 \<in> paths w1"
      using wp rp f by (simp_all add: names)
    from do_exchange[OF wp1 rp1 k, of c] obtain r2 w2 where
      "do c w1 = Some (r2, w2)" "trace w2 = trace w1 @ exchange_events w1 c (Suc k - rpos w1)"
      "open_files w2 = open_files w1" "rpos w2 = Suc k"
      by blast
    then show "\<exists>r2 w2. do c w1 = Some (r2, w2)
                    \<and> trace w2 = trace w @ exchange_events w c (rpos w1 - rpos w)
                                          @ exchange_events w c (rpos w2 - rpos w1)
                    \<and> open_files w2 = open_files w"
      using t1 f by (simp add: ev)
  qed
  show ?thesis
    using f observed_do[of _ w1 c] third by blast
qed

text \<open>
  C8 for a peer that answers \<open>a\<close> to the first call and \<open>b\<close> to the second: the second
  call shows what a call shows on a fresh host whose peer answers \<open>b\<close>.
\<close>

theorem do_twice_no_state_carried_witness:
  "do ''New'' (linux_world [''a\<newline>'', ''\<newline>'', ''b\<newline>'', ''\<newline>''])
     = Some (Inr ''a\<newline>'',
             (linux_world [''a\<newline>'', ''\<newline>'', ''b\<newline>'', ''\<newline>''])
               \<lparr>rpos := 2,
                trace := exchange_events (linux_world [''a\<newline>'', ''\<newline>'', ''b\<newline>'', ''\<newline>'']) ''New'' 2\<rparr>)
   \<and> same_environment (linux_world [''b\<newline>'', ''\<newline>''])
         ((linux_world [''a\<newline>'', ''\<newline>'', ''b\<newline>'', ''\<newline>''])
               \<lparr>rpos := 2,
                trace := exchange_events (linux_world [''a\<newline>'', ''\<newline>'', ''b\<newline>'', ''\<newline>'']) ''New'' 2\<rparr>)
   \<and> observed
         ((linux_world [''a\<newline>'', ''\<newline>'', ''b\<newline>'', ''\<newline>''])
               \<lparr>rpos := 2,
                trace := exchange_events (linux_world [''a\<newline>'', ''\<newline>'', ''b\<newline>'', ''\<newline>'']) ''New'' 2\<rparr>)
         (do ''New''
           ((linux_world [''a\<newline>'', ''\<newline>'', ''b\<newline>'', ''\<newline>''])
               \<lparr>rpos := 2,
                trace := exchange_events (linux_world [''a\<newline>'', ''\<newline>'', ''b\<newline>'', ''\<newline>'']) ''New'' 2\<rparr>))
       = Some (Inr ''b\<newline>'',
               [Exists ''/tmp/audacity_script_pipe.to.1000'', Sleep,
                Exists ''/tmp/audacity_script_pipe.from.1000'', Sleep,
                Open ''/tmp/audacity_script_pipe.to.1000'' WriteMode,
                Open ''/tmp/audacity_script_pipe.from.1000'' ReadMode,
                Write ''/tmp/audacity_script_pipe.to.1000'' ''New\<newline>'',
                Flush ''/tmp/audacity_script_pipe.to.1000'',
                Readline ''/tmp/audacity_script_pipe.from.1000'',
                Readline ''/tmp/audacity_script_pipe.from.1000'',
                Close ''/tmp/audacity_script_pipe.to.1000'', Sleep,
                Close ''/tmp/audacity_script_pipe.from.1000''],
               2, True)"
proof -
  let ?w = "linux_world [''a\<newline>'', ''\<newline>'', ''b\<newline>'', ''\<newline>'']"
  let ?w1 = "?w\<lparr>rpos := 2, trace := exchange_events ?w ''New'' 2\<rparr>"
  let ?v = "linux_world [''b\<newline>'', ''\<newline>'']"
  have sw: "stops_at ?w (Suc 0)" by (rule stops_at_linux_world_1) simp
  have sv: "stops_at ?v (Suc 0)" by (rule stops_at_linux_world_1) simp
  from do_returns[OF linux_world_paths sw, of "''New''"]
  have h: "do ''New'' ?w = Some (Inr ''a\<newline>'', ?w1)"
    by (simp add: buffered_linux_world_1 failure_marker_def linux_world_sel numeral_2_eq_2)
  have e: "same_environment ?v ?w1"
    using peer_sends_drop[of "''a\<newline>''" "''\<newline>''" "[''b\<newline>'', ''\<newline>'']"]
    by (simp add: same_environment_def linux_world_sel numeral_2_eq_2) (simp add: linux_world_def)
  from do_twice_no_state_carried[OF h, THEN conjunct2, THEN conjunct2, THEN conjunct2,
      THEN conjunct2, THEN conjunct2, THEN conjunct1, rule_format, OF e]
  have o: "observed ?v (do ''New'' ?v) = observed ?w1 (do ''New'' ?w1)" .
  from do_returns[OF linux_world_paths sv, of "''New''"]
  have "observed ?v (do ''New'' ?v) = Some (Inr ''b\<newline>'', exchange_events ?v ''New'' 2, 2, True)"
    by (simp add: observed_def buffered_linux_world_1 failure_marker_def linux_world_sel numeral_2_eq_2)
  then have "observed ?w1 (do ''New'' ?w1) = Some (Inr ''b\<newline>'', exchange_events ?v ''New'' 2, 2, True)"
    unfolding o .
  then have r: "observed ?w1 (do ''New'' ?w1) = Some (Inr ''b\<newline>'',
               [Exists ''/tmp/audacity_script_pipe.to.1000'', Sleep,
                Exists ''/tmp/audacity_script_pipe.from.1000'', Sleep,
                Open ''/tmp/audacity_script_pipe.to.1000'' WriteMode,
                Open ''/tmp/audacity_script_pipe.from.1000'' ReadMode,
                Write ''/tmp/audacity_script_pipe.to.1000'' ''New\<newline>'',
                Flush ''/tmp/audacity_script_pipe.to.1000'',
                Readline ''/tmp/audacity_script_pipe.from.1000'',
                Readline ''/tmp/audacity_script_pipe.from.1000'',
                Close ''/tmp/audacity_script_pipe.to.1000'', Sleep,
                Close ''/tmp/audacity_script_pipe.from.1000''],
               2, True)"
    by (simp add: exchange_events_def linux_world_names numeral_2_eq_2)
  show ?thesis
    by (intro conjI h e r)
qed

text \<open>
  C9. Whatever \<open>do\<close> raises is a \<open>PyAudacityException\<close>, which carries a message and
  nothing else. For a missing endpoint the message is the endpoint name followed by the
  fixed explanation; for a failure reported by the peer it is the response, which
  contains the failure marker. The first kind of message never contains the marker, so
  the text of the message is the one thing that tells the two kinds apart.
\<close>

theorem do_raises_only_PyAudacityException:
  assumes "do c w = Some (Inl e, w')"
  shows "(\<exists>msg. e = PyAudacityException msg \<and>
            (if write_pipe_name w \<notin> paths w then msg = write_pipe_name w @ does_not_exist
             else if read_pipe_name w \<notin> paths w then msg = read_pipe_name w @ does_not_exist
             else (\<exists>ps ss. msg = ps @ failure_marker @ ss)))
       \<and> \<not> (\<exists>ps ss. write_pipe_name w @ does_not_exist = ps @ failure_marker @ ss)
       \<and> \<not> (\<exists>ps ss. read_pipe_name w @ does_not_exist = ps @ failure_marker @ ss)"
proof (intro conjI missing_message_has_no_marker)
  show "\<exists>msg. e = PyAudacityException msg \<and>
            (if write_pipe_name w \<notin> paths w then msg = write_pipe_name w @ does_not_exist
             else if read_pipe_name w \<notin> paths w then msg = read_pipe_name w @ does_not_exist
             else (\<exists>ps ss. msg = ps @ failure_marker @ ss))"
  proof (cases "write_pipe_name w \<in> paths w")
    case False
    from do_missing_write[OF False, of c] assms show ?thesis using False by simp
  next
    case wp: True
    show ?thesis
    proof (cases "read_pipe_name w \<in> paths w")
      case False
      from do_missing_read[OF wp False, of c] assms show ?thesis using wp False by simp
    next
      case rp: True
      from assms obtain k where k: "stops_at w k"
        and e: "Inl e = (if str_in failure_marker (buffered w k)
             then Inl (PyAudacityException (buffered w k)) else Inr (buffered w k))"
        unfolding do_Some_iff[OF wp rp] by blast
      from e have "str_in failure_marker (buffered w k)" "e = PyAudacityException (buffered w k)"
        by (simp_all split: if_splits)
      then show ?thesis using wp rp by (simp add: str_in_iff)
    qed
  qed
qed

text \<open>C9 at a missing outbound pipe and at a response with the failure marker.\<close>

theorem do_raises_only_PyAudacityException_witness:
  "(\<exists>w'. do ''New'' ((linux_world [])\<lparr>paths := {}\<rparr>)
           = Some (Inl (PyAudacityException (''/tmp/audacity_script_pipe.to.1000'' @ does_not_exist)), w'))
   \<and> \<not> str_in failure_marker (''/tmp/audacity_script_pipe.to.1000'' @ does_not_exist)
   \<and> (\<exists>w'. do ''New'' (linux_world [''BatchCommand finished: Failed!\<newline>'', ''\<newline>''])
           = Some (Inl (PyAudacityException ''BatchCommand finished: Failed!\<newline>''), w'))
   \<and> str_in failure_marker ''BatchCommand finished: Failed!\<newline>''"
proof -
  let ?m = "(linux_world [])\<lparr>paths := {}\<rparr>"
  let ?b = "linux_world [''BatchCommand finished: Failed!\<newline>'', ''\<newline>'']"
  have n: "write_pipe_name ?m = ''/tmp/audacity_script_pipe.to.1000''"
    using names_frame[of ?m "linux_world []"] by (simp add: linux_world_names)
  have "write_pipe_name ?m \<notin> paths ?m" by simp
  from do_missing_write[OF this, of "''New''"]
  have h1: "do ''New'' ?m = Some (Inl (PyAudacityException (write_pipe_name ?m @ does_not_exist)),
                                  ?m\<lparr>trace := trace ?m @ [Exists (write_pipe_name ?m)]\<rparr>)" .
  from do_raises_only_PyAudacityException[OF h1]
  have c1: "\<not> str_in failure_marker (write_pipe_name ?m @ does_not_exist)"
    unfolding str_in_iff by blast
  have sb: "stops_at ?b (Suc 0)" by (rule stops_at_linux_world_1) simp
  from do_returns[OF linux_world_paths sb, of "''New''"]
  have h2: "do ''New'' ?b = Some (Inl (PyAudacityException ''BatchCommand finished: Failed!\<newline>''),
              ?b\<lparr>rpos := Suc (Suc 0), trace := trace ?b @ exchange_events ?b ''New'' (Suc (Suc 0) - rpos ?b)\<rparr>)"
    by (simp add: buffered_linux_world_1 failure_marker_def)
  from do_raises_only_PyAudacityException[OF h2] linux_world_paths[of "[''BatchCommand finished: Failed!\<newline>'', ''\<newline>'']"]
  have c2: "str_in failure_marker ''BatchCommand finished: Failed!\<newline>''"
    unfolding str_in_iff by auto
  show ?thesis
    using h1 c1 h2 c2 unfolding n by blast
qed

text \<open>
  C10. When \<open>allow_overwrite\<close> is true (the default: \<open>save(filename)\<close> passes \<open>True\<close>)
  and the path exists, \<open>save\<close> behaves as \<open>save\<close> without overwriting does in the world
  where the file has already been unlinked: the existence check and the unlink are the
  first two entries the call adds to the log, before the validation of
  \<open>add_to_history\<close> and \<open>compress\<close> and before any pipe is touched. In particular, when
  the validation fails the call raises and the file is gone. No finished call unlinks
  anything else. When \<open>allow_overwrite\<close> is false, no finished call unlinks anything and
  the set of existing paths is unchanged.
\<close>

theorem save_unlinks_before_anything_else:
  "(truthy allow_overwrite \<and> filename \<in> paths w \<longrightarrow>
      save filename add_to_history compress allow_overwrite w =
        save filename add_to_history compress (PyBool False)
          (w\<lparr>paths := paths w - {filename}, trace := trace w @ [Exists filename, Unlink filename]\<rparr>)
      \<and> (\<not> isinstance_bool add_to_history \<or> \<not> isinstance_bool compress \<longrightarrow>
           (\<exists>e. save filename add_to_history compress allow_overwrite w =
              Some (Inl e, w\<lparr>paths := paths w - {filename},
                             trace := trace w @ [Exists filename, Unlink filename]\<rparr>)))
      \<and> (\<forall>r w'. save filename add_to_history compress allow_overwrite w = Some (r, w') \<longrightarrow>
           (\<exists>rest. trace w' = trace w @ [Exists filename, Unlink filename] @ rest
                    \<and> (\<forall>p. Unlink p \<notin> set rest))))
   \<and> (\<not> truthy allow_overwrite \<longrightarrow>
        (\<forall>r w'. save filename add_to_history compress allow_overwrite w = Some (r, w') \<longrightarrow>
           paths w' = paths w
           \<and> (\<exists>rest. trace w' = trace w @ rest \<and> (\<forall>p. Unlink p \<notin> set rest))))
   \<and> save_defaults filename w = save filename (PyBool False) (PyBool False) (PyBool True) w"
proof (intro conjI impI allI)
  assume a: "truthy allow_overwrite \<and> filename \<in> paths w"
  let ?u = "w\<lparr>paths := paths w - {filename}, trace := trace w @ [Exists filename, Unlink filename]\<rparr>"
  show eq: "save filename add_to_history compress allow_overwrite w =
        save filename add_to_history compress (PyBool False) ?u"
    using a by (simp add: save_overwrite)
  show "\<exists>e. save filename add_to_history compress allow_overwrite w = Some (Inl e, ?u)"
    if "\<not> isinstance_bool add_to_history \<or> \<not> isinstance_bool compress"
    using that unfolding eq by (auto simp add: save_no_overwrite)
  fix r w' assume "save filename add_to_history compress allow_overwrite w = Some (r, w')"
  then have "save filename add_to_history compress (PyBool False) ?u = Some (r, w')"
    unfolding eq .
  from save_no_overwrite_frame[OF _ this]
  show "\<exists>rest. trace w' = trace w @ [Exists filename, Unlink filename] @ rest
                    \<and> (\<forall>p. Unlink p \<notin> set rest)"
    by simp
next
  fix r w'
  assume "\<not> truthy allow_overwrite"
    and "save filename add_to_history compress allow_overwrite w = Some (r, w')"
  from save_no_overwrite_frame[OF this]
  show "paths w' = paths w" and "\<exists>rest. trace w' = trace w @ rest \<and> (\<forall>p. Unlink p \<notin> set rest)"
    by blast+
next
  show "save_defaults filename w = save filename (PyBool False) (PyBool False) (PyBool True) w"
    by (simp add: save_defaults_def)
qed

text \<open>
  C10 on a host where \<open>/tmp/x.aup3\<close> exists: a call whose validation fails, a call with
  the defaults, and a call that forbids overwriting.
\<close>

theorem save_unlinks_before_anything_else_witness:
  "truthy (PyBool True)
   \<and> ''/tmp/x.aup3'' \<in> paths ((linux_world [''ok\<newline>'', ''\<newline>''])
          \<lparr>paths := {''/tmp/audacity_script_pipe.to.1000'', ''/tmp/audacity_script_pipe.from.1000'', ''/tmp/x.aup3''}\<rparr>)
   \<and> \<not> isinstance_bool (PyInt 1)
   \<and> (\<exists>e. save ''/tmp/x.aup3'' (PyInt 1) (PyBool False) (PyBool True)
            ((linux_world [''ok\<newline>'', ''\<newline>''])
               \<lparr>paths := {''/tmp/audacity_script_pipe.to.1000'', ''/tmp/audacity_script_pipe.from.1000'', ''/tmp/x.aup3''}\<rparr>)
          = Some (Inl e,
              (linux_world [''ok\<newline>'', ''\<newline>''])
               \<lparr>paths := {''/tmp/audacity_script_pipe.to.1000'', ''/tmp/audacity_script_pipe.from.1000''},
                trace := [Exists ''/tmp/x.aup3'', Unlink ''/tmp/x.aup3'']\<rparr>))
   \<and> (\<exists>r w'. save_defaults ''/tmp/x.aup3''
            ((linux_world [''ok\<newline>'', ''\<newline>''])
               \<lparr>paths := {''/tmp/audacity_script_pipe.to.1000'', ''/tmp/audacity_script_pipe.from.1000'', ''/tmp/x.aup3''}\<rparr>)
          = Some (r, w')
        \<and> take 3 (trace w') = [Exists ''/tmp/x.aup3'', Unlink ''/tmp/x.aup3'',
                                  Exists ''/tmp/audacity_script_pipe.to.1000''])
   \<and> \<not> truthy (PyBool False)
   \<and> (\<exists>r w'. save ''/tmp/x.aup3'' (PyBool False) (PyBool False) (PyBool False)
            ((linux_world [''ok\<newline>'', ''\<newline>''])
               \<lparr>paths := {''/tmp/audacity_script_pipe.to.1000'', ''/tmp/audacity_script_pipe.from.1000'', ''/tmp/x.aup3''}\<rparr>)
          = Some (r, w')
        \<and> ''/tmp/x.aup3'' \<in> paths w' \<and> Unlink ''/tmp/x.aup3'' \<notin> set (trace w'))"
proof -
  let ?f = "''/tmp/x.aup3''"
  let ?W = "(linux_world [''ok\<newline>'', ''\<newline>''])
               \<lparr>paths := {''/tmp/audacity_script_pipe.to.1000'', ''/tmp/audacity_script_pipe.from.1000'', ''/tmp/x.aup3''}\<rparr>"
  let ?U = "?W\<lparr>paths := paths ?W - {?f}, trace := trace ?W @ [Exists ?f, Unlink ?f]\<rparr>"
  note T = save_unlinks_before_anything_else[of _ ?f ?W]
  have fin: "?f \<in> paths ?W" by simp
  have tr: "trace ?W = []" by (simp add: linux_world_sel)
  have nW: "write_pipe_name ?W = ''/tmp/audacity_script_pipe.to.1000''"
    "read_pipe_name ?W = ''/tmp/audacity_script_pipe.from.1000''"
    using names_frame[of ?W "linux_world [''ok\<newline>'', ''\<newline>'']"]
    by (simp_all add: linux_world_names linux_world_sel)
  have nU: "write_pipe_name ?U = ''/tmp/audacity_script_pipe.to.1000''"
    "read_pipe_name ?U = ''/tmp/audacity_script_pipe.from.1000''"
    using names_frame[of ?U "linux_world [''ok\<newline>'', ''\<newline>'']"]
    by (simp_all add: linux_world_names linux_world_sel)
  have pW: "write_pipe_name ?W \<in> paths ?W" "read_pipe_name ?W \<in> paths ?W"
    unfolding nW by simp_all
  have pU: "write_pipe_name ?U \<in> paths ?U" "read_pipe_name ?U \<in> paths ?U"
    unfolding nU by simp_all
  have sW: "stops_at ?W (Suc 0)"
    by (rule stops_at_peer_sends_1(1)[of _ "''ok\<newline>''" "[]"]) (simp_all add: linux_world_sel)
  have sU: "stops_at ?U (Suc 0)"
    by (rule stops_at_peer_sends_1(1)[of _ "''ok\<newline>''" "[]"]) (simp_all add: linux_world_sel)
  \<comment> \<open>validation fails, the file is gone\<close>
  from T[of "PyBool True" "PyInt 1" "PyBool False", THEN conjunct1, rule_format, THEN conjunct2, THEN conjunct1]
  have a: "\<exists>e. save ?f (PyInt 1) (PyBool False) (PyBool True) ?W =
     Some (Inl e, (linux_world [''ok\<newline>'', ''\<newline>''])
               \<lparr>paths := {''/tmp/audacity_script_pipe.to.1000'', ''/tmp/audacity_script_pipe.from.1000''},
                trace := [Exists ''/tmp/x.aup3'', Unlink ''/tmp/x.aup3'']\<rparr>)"
    by (simp add: tr insert_Diff_if)
  \<comment> \<open>defaults: unlink, then the exchange\<close>
  have eqd: "save_defaults ?f ?W = save ?f (PyBool False) (PyBool False) (PyBool False) ?U"
    using T[of "PyBool True" "PyBool False" "PyBool False"] by simp
  from save_returns[OF pU sU, of "PyBool False" "PyBool False" "PyBool False" ?f]
  obtain r w' where d: "save_defaults ?f ?W = Some (r, w')" unfolding eqd by auto
  then have "save ?f (PyBool False) (PyBool False) (PyBool True) ?W = Some (r, w')"
    by (simp add: save_defaults_def)
  from T[of "PyBool True" "PyBool False" "PyBool False", THEN conjunct1, rule_format, THEN conjunct2,
         THEN conjunct2, rule_format, OF _ this]
  obtain rest where rest: "trace w' = [Exists ?f, Unlink ?f] @ rest"
    by (auto simp add: tr)
  from d[unfolded eqd] have dd: "do (save_command ?f (PyBool False) (PyBool False)) ?U = Some (r, w')"
    by (simp add: save_no_overwrite)
  have "trace w' = trace ?U @ exchange_events ?U (save_command ?f (PyBool False) (PyBool False)) (Suc (Suc 0) - rpos ?U)"
    by (rule do_exchange_trace[OF pU sU dd])
  then have "take 3 (trace w') = [Exists ?f, Unlink ?f, Exists ''/tmp/audacity_script_pipe.to.1000'']"
    unfolding exchange_events_def nU by (simp add: tr)
  with d have b: "\<exists>r w'. save_defaults ?f ?W = Some (r, w')
        \<and> take 3 (trace w') = [Exists ?f, Unlink ?f, Exists ''/tmp/audacity_script_pipe.to.1000'']"
    by blast
  \<comment> \<open>no overwrite: nothing is unlinked\<close>
  from save_returns[OF pW sW, of "PyBool False" "PyBool False" "PyBool False" ?f]
  obtain r2 w2 where n: "save ?f (PyBool False) (PyBool False) (PyBool False) ?W = Some (r2, w2)"
    by auto
  from T[of "PyBool False" "PyBool False" "PyBool False", THEN conjunct2, THEN conjunct1, rule_format, OF _ n]
  have "paths w2 = paths ?W \<and> (\<exists>rest. trace w2 = trace ?W @ rest \<and> (\<forall>p. Unlink p \<notin> set rest))"
    by simp
  then have "?f \<in> paths w2 \<and> Unlink ?f \<notin> set (trace w2)"
    by (auto simp add: tr)
  with n have c: "\<exists>r w'. save ?f (PyBool False) (PyBool False) (PyBool False) ?W = Some (r, w')
        \<and> ?f \<in> paths w' \<and> Unlink ?f \<notin> set (trace w')"
    by blast
  show ?thesis
    using a b c by (intro conjI) simp_all
qed

end
